theory Spec2Isabelle
  imports Main "HOL-Library.Multiset" "HOL-Library.Char_ord" "HOL-Library.List_Lexorder"
begin

section \<open>Data model (models.py)\<close>

text \<open>
  Python strings are modelled as \<open>string\<close>; a \<open>char\<close> stands for a code point below 256.
  JSON values stand for the contents of the \<open>metadata\<close> dictionary (numbers restricted to
  integers).
\<close>

datatype json = JNull | JBool bool | JInt int | JStr string | JArr "json list"
  | JObj "(string \<times> json) list"

type_synonym metadata_dict = "(string \<times> json) list"

text \<open>
  \<open>TaskDB\<close>: one row of the table \<open>tasks\<close>. The columns \<open>tags\<close> and \<open>task_metadata\<close> hold JSON
  text written by \<open>json.dumps\<close> and read back by \<open>json.loads\<close>; the row keeps the value that
  was dumped (\<open>None\<close> is SQL NULL), and \<open>json_dumps_tags\<close> below renders the text where the
  code looks at the text itself. The fields carry the prefix \<open>db_\<close> to keep them apart from
  the fields of the schema \<open>Task\<close>.
\<close>

record TaskDB =
  db_id :: string
  db_title :: string
  db_description :: "string option"
  db_completed :: bool
  db_archived :: bool
  db_priority :: int
  db_due_date :: "string option"
  db_completion_date :: "string option"
  db_parent_id :: "string option"
  db_tags :: "string list option"
  db_task_metadata :: "metadata_dict option"
  db_created_at :: string
  db_updated_at :: string

text \<open>\<open>Task\<close> (and \<open>TaskImport\<close>, which adds nothing to it): the response and import schema.\<close>

record Task =
  task_id :: string
  title :: string
  description :: "string option"
  completed :: bool
  archived :: bool
  priority :: int
  due_date :: "string option"
  completion_date :: "string option"
  parent_id :: "string option"
  tags :: "string list option"
  metadata :: "metadata_dict option"
  created_at :: string
  updated_at :: string

text \<open>The failures of the request handlers: the HTTP errors they raise, Python's
  \<open>RecursionError\<close>, the storage engine's \<open>IntegrityError\<close> at commit, and the
  \<open>ValueError\<close> and \<open>TypeError\<close> of \<open>datetime\<close>.\<close>

datatype error =
    HTTP_404_NOT_FOUND
  | HTTP_409_CONFLICT "string list"
  | HTTP_412_PRECONDITION_FAILED
  | HTTP_422_UNPROCESSABLE_ENTITY
  | RecursionError
  | IntegrityError
  | ValueError
  | TypeError

text \<open>Truth value of an \<open>Optional[str]\<close>: \<open>None\<close> and the empty string are false.\<close>

definition truthy :: "string option \<Rightarrow> bool" where
  "truthy s = (case s of None \<Rightarrow> False | Some v \<Rightarrow> v \<noteq> [])"

subsection \<open>Whitespace and tags\<close>

text \<open>\<open>str.isspace\<close> on code points below 256.\<close>

definition is_space :: "char \<Rightarrow> bool" where
  "is_space c = (let n = (of_char c :: nat) in
     (9 \<le> n \<and> n \<le> 13) \<or> (28 \<le> n \<and> n \<le> 32) \<or> n = 133 \<or> n = 160)"

definition strip :: "string \<Rightarrow> string" where
  "strip s = rev (dropWhile is_space (rev (dropWhile is_space s)))"

definition set_tags :: "string list \<Rightarrow> string list option" where
  "set_tags ts = (if ts \<noteq> [] then Some (map strip ts) else None)"

definition get_tags :: "TaskDB \<Rightarrow> string list" where
  "get_tags r = (case db_tags r of None \<Rightarrow> [] | Some ts \<Rightarrow> ts)"

definition set_metadata :: "metadata_dict option \<Rightarrow> metadata_dict option" where
  "set_metadata m = (case m of None \<Rightarrow> None | Some d \<Rightarrow> if d \<noteq> [] then Some d else None)"

definition get_metadata :: "TaskDB \<Rightarrow> metadata_dict option" where
  "get_metadata r = db_task_metadata r"

section \<open>Bulk import (server.py, import_tasks)\<close>

subsection \<open>The parent-first processing order\<close>

text \<open>\<open>tasks_by_id = {task.id: task for task in tasks}\<close>: a later record wins.\<close>

definition tasks_by_id :: "Task list \<Rightarrow> (string \<rightharpoonup> Task)" where
  "tasks_by_id ts = map_of (rev (map (\<lambda>t. (task_id t, t)) ts))"

text \<open>The parent that \<open>add_task_with_parents\<close> visits first: \<open>task.parent_id\<close> must be true
  as a Python value and a key of \<open>tasks_by_id\<close>.\<close>

definition in_batch_parent :: "(string \<rightharpoonup> Task) \<Rightarrow> Task \<Rightarrow> Task option" where
  "in_batch_parent by_id t =
     (case parent_id t of None \<Rightarrow> None | Some p \<Rightarrow> if p = [] then None else by_id p)"

text \<open>
  \<open>add_task_with_parents\<close>, on the state \<open>(sorted_tasks, processed)\<close>. The first argument
  bounds the depth of the recursion, as the interpreter's recursion limit does; \<open>None\<close> is
  the \<open>RecursionError\<close> raised when it is exceeded.
\<close>

fun add_task_with_parents ::
  "nat \<Rightarrow> (string \<rightharpoonup> Task) \<Rightarrow> Task \<Rightarrow> Task list \<times> string set \<Rightarrow> (Task list \<times> string set) option"
where
  "add_task_with_parents 0 by_id task st = None"
| "add_task_with_parents (Suc n) by_id task (sorted_tasks, processed) =
     (if task_id task \<in> processed then Some (sorted_tasks, processed)
      else
        (case in_batch_parent by_id task of
           None \<Rightarrow> Some (sorted_tasks @ [task], insert (task_id task) processed)
         | Some parent \<Rightarrow>
             (case add_task_with_parents n by_id parent (sorted_tasks, processed) of
                None \<Rightarrow> None
              | Some (sorted', processed') \<Rightarrow>
                  Some (sorted' @ [task], insert (task_id task) processed'))))"

text \<open>The loop \<open>for task in tasks: add_task_with_parents(task)\<close>.\<close>

fun add_all ::
  "nat \<Rightarrow> (string \<rightharpoonup> Task) \<Rightarrow> Task list \<Rightarrow> Task list \<times> string set \<Rightarrow> (Task list \<times> string set) option"
where
  "add_all n by_id [] st = Some st"
| "add_all n by_id (task # rest) st =
     (case add_task_with_parents n by_id task st of
        None \<Rightarrow> None
      | Some st' \<Rightarrow> add_all n by_id rest st')"

definition sort_tasks :: "nat \<Rightarrow> Task list \<Rightarrow> Task list option" where
  "sort_tasks n ts = map_option fst (add_all n (tasks_by_id ts) ts ([], {}))"

subsection \<open>The storage engine\<close>

text \<open>
  The table is the list of its rows in insertion order. \<open>database.py\<close> switches SQLite's
  foreign keys on, so every statement is checked when it ends: the key \<open>id\<close> is unique, and
  a \<open>parent_id\<close> that is not NULL is the id of a row of the table (the row itself included).
  The session sends its pending rows one statement each, in the order of the calls; \<open>None\<close>
  is the \<open>IntegrityError\<close> of a refused statement, after which nothing is committed.
\<close>

definition fk_ok :: "string list \<Rightarrow> TaskDB \<Rightarrow> bool" where
  "fk_ok ids r = (case db_parent_id r of None \<Rightarrow> True | Some p \<Rightarrow> p \<in> set ids)"

definition db_insert :: "TaskDB list \<Rightarrow> TaskDB \<Rightarrow> TaskDB list option" where
  "db_insert db r =
     (if db_id r \<in> set (map db_id db) then None
      else if fk_ok (db_id r # map db_id db) r then Some (db @ [r])
      else None)"

definition db_update :: "TaskDB list \<Rightarrow> TaskDB \<Rightarrow> TaskDB list option" where
  "db_update db r =
     (if fk_ok (map db_id db) r
      then Some (map (\<lambda>x. if db_id x = db_id r then r else x) db)
      else None)"

text \<open>\<open>db.query(TaskDB).filter(TaskDB.id == id).first()\<close>\<close>

definition query_first :: "TaskDB list \<Rightarrow> string \<Rightarrow> TaskDB option" where
  "query_first db i = find (\<lambda>r. db_id r = i) db"

subsection \<open>Writing the batch\<close>

text \<open>\<open>task.tags if task.tags else []\<close>\<close>

definition tags_or_empty :: "Task \<Rightarrow> string list" where
  "tags_or_empty task = (case tags task of None \<Rightarrow> [] | Some ts \<Rightarrow> if ts \<noteq> [] then ts else [])"

text \<open>The row built for a record that is created.\<close>

definition import_row :: "Task \<Rightarrow> TaskDB" where
  "import_row task =
     \<lparr> db_id = task_id task, db_title = title task, db_description = description task,
       db_completed = completed task, db_archived = archived task, db_priority = priority task,
       db_due_date = due_date task, db_completion_date = completion_date task,
       db_parent_id = parent_id task, db_tags = set_tags (tags_or_empty task),
       db_task_metadata = set_metadata (metadata task),
       db_created_at = created_at task, db_updated_at = updated_at task \<rparr>"

text \<open>The assignments to an existing row under \<open>upsert\<close>.\<close>

definition upsert_row :: "TaskDB \<Rightarrow> Task \<Rightarrow> TaskDB" where
  "upsert_row db_task task =
     db_task\<lparr> db_title := title task, db_description := description task,
       db_completed := completed task, db_archived := archived task,
       db_priority := priority task, db_due_date := due_date task,
       db_completion_date := completion_date task, db_parent_id := parent_id task,
       db_tags := set_tags (tags_or_empty task),
       db_task_metadata := set_metadata (metadata task),
       db_created_at := created_at task, db_updated_at := updated_at task \<rparr>"

text \<open>The loop \<open>for task in sorted_tasks\<close>, on the state \<open>(table, imported_count)\<close>.\<close>

fun import_loop ::
  "string \<Rightarrow> string list \<Rightarrow> Task list \<Rightarrow> TaskDB list \<times> nat \<Rightarrow> (TaskDB list \<times> nat) option"
where
  "import_loop on_conflict existing_ids [] st = Some st"
| "import_loop on_conflict existing_ids (task # rest) (db, imported_count) =
     (if on_conflict = ''upsert'' \<and> task_id task \<in> set existing_ids then
        (case query_first db (task_id task) of
           None \<Rightarrow> import_loop on_conflict existing_ids rest (db, imported_count)
         | Some db_task \<Rightarrow>
             (case db_update db (upsert_row db_task task) of
                None \<Rightarrow> None
              | Some db' \<Rightarrow> import_loop on_conflict existing_ids rest (db', imported_count + 1)))
      else
        (case db_insert db (import_row task) of
           None \<Rightarrow> None
         | Some db' \<Rightarrow> import_loop on_conflict existing_ids rest (db', imported_count + 1)))"

text \<open>
  \<open>import_tasks\<close> returns the table after the request and either the error raised or the pair
  of the response's status code and \<open>imported_count\<close>.
\<close>

definition import_tasks ::
  "TaskDB list \<Rightarrow> Task list \<Rightarrow> bool \<Rightarrow> string \<Rightarrow> nat \<Rightarrow> TaskDB list \<times> (error + nat \<times> nat)"
where
  "import_tasks db tasks validate_only on_conflict recursion_limit =
     (let task_ids = map task_id tasks in
      if length task_ids \<noteq> length (remdups task_ids)
      then (db, Inl HTTP_422_UNPROCESSABLE_ENTITY)
      else
        let existing_ids = map db_id (filter (\<lambda>r. db_id r \<in> set task_ids) db) in
        if existing_ids \<noteq> [] \<and> on_conflict = ''fail''
        then (db, Inl (HTTP_409_CONFLICT existing_ids))
        else
          let tasks' = (if existing_ids \<noteq> [] \<and> on_conflict = ''skip''
                        then filter (\<lambda>task. task_id task \<notin> set existing_ids) tasks
                        else tasks)
          in
          if validate_only then (db, Inr (200, length tasks'))
          else
            (case sort_tasks recursion_limit tasks' of
               None \<Rightarrow> (db, Inl RecursionError)
             | Some sorted_tasks \<Rightarrow>
                 (case import_loop on_conflict existing_ids sorted_tasks (db, 0) of
                    None \<Rightarrow> (db, Inl IntegrityError)
                  | Some (db', imported_count) \<Rightarrow> (db', Inr (201, imported_count)))))"

subsection \<open>Notions used to state the properties of the processing order\<close>

text \<open>The records that one call of \<open>add_task_with_parents\<close> appends: the task and its
  ancestors in the batch that are not processed yet, the oldest ancestor first.\<close>

fun chain :: "nat \<Rightarrow> (string \<rightharpoonup> Task) \<Rightarrow> string set \<Rightarrow> Task \<Rightarrow> Task list option" where
  "chain 0 by_id P t = None"
| "chain (Suc n) by_id P t =
     (if task_id t \<in> P then Some []
      else (case in_batch_parent by_id t of
              None \<Rightarrow> Some [t]
            | Some p \<Rightarrow> map_option (\<lambda>c. c @ [t]) (chain n by_id P p)))"

text \<open>Every record of the list comes after its parent in the batch (\<open>seen\<close>: what precedes
  the list).\<close>

fun parents_first :: "(string \<rightharpoonup> Task) \<Rightarrow> Task list \<Rightarrow> Task list \<Rightarrow> bool" where
  "parents_first by_id seen [] = True"
| "parents_first by_id seen (t # rest) =
     ((case in_batch_parent by_id t of None \<Rightarrow> True | Some p \<Rightarrow> p \<in> set seen)
      \<and> parents_first by_id (seen @ [t]) rest)"

text \<open>\<open>b\<close> stands after the first \<open>a\<close> of the list.\<close>

fun inserted_before :: "'a \<Rightarrow> 'a \<Rightarrow> 'a list \<Rightarrow> bool" where
  "inserted_before a b [] = False"
| "inserted_before a b (x # xs) = (if x = a then b \<in> set xs else inserted_before a b xs)"

text \<open>Following the parents that the recursion visits (\<open>in_batch_parent\<close>: a non-empty
  \<open>parent_id\<close> that is a key of \<open>tasks_by_id\<close>) from \<open>t\<close> ends within \<open>k\<close> records. A batch
  of \<open>n\<close> records has no cycle of the references the recursion follows when this holds
  with \<open>k = n\<close> for each of its records. A reference to the empty id is not followed, so
  it does not count here; \<open>acyclic_refs\<close> below counts it.\<close>

fun parent_chain_ends :: "nat \<Rightarrow> (string \<rightharpoonup> Task) \<Rightarrow> Task \<Rightarrow> bool" where
  "parent_chain_ends 0 by_id t = False"
| "parent_chain_ends (Suc k) by_id t =
     (case in_batch_parent by_id t of None \<Rightarrow> True | Some p \<Rightarrow> parent_chain_ends k by_id p)"

definition acyclic_batch :: "Task list \<Rightarrow> bool" where
  "acyclic_batch ts = list_all (parent_chain_ends (length ts) (tasks_by_id ts)) ts"

definition sort_inv :: "Task list \<Rightarrow> Task list \<times> string set \<Rightarrow> bool" where
  "sort_inv ts st = (snd st = task_id ` set (fst st) \<and> set (fst st) \<subseteq> set ts
     \<and> distinct (map task_id (fst st)) \<and> parents_first (tasks_by_id ts) [] (fst st))"

text \<open>A record for the examples: only \<open>id\<close> and \<open>parent_id\<close> vary.\<close>

definition example_task :: "string \<Rightarrow> string option \<Rightarrow> Task" where
  "example_task i p =
     \<lparr> task_id = i, title = ''t'', description = None, completed = False, archived = False,
       priority = 0, due_date = None, completion_date = None, parent_id = p, tags = None,
       metadata = None, created_at = ''2025-01-01T00:00:00Z'',
       updated_at = ''2025-01-01T00:00:00Z'' \<rparr>"

section \<open>Single-task handlers (server.py)\<close>

text \<open>\<open>db_to_task\<close>: \<open>get_tags\<close> always yields a list.\<close>

definition db_to_task :: "TaskDB \<Rightarrow> Task" where
  "db_to_task db_task =
     \<lparr> task_id = db_id db_task, title = db_title db_task,
       description = db_description db_task, completed = db_completed db_task,
       archived = db_archived db_task, priority = db_priority db_task,
       due_date = db_due_date db_task, completion_date = db_completion_date db_task,
       parent_id = db_parent_id db_task, tags = Some (get_tags db_task),
       metadata = get_metadata db_task, created_at = db_created_at db_task,
       updated_at = db_updated_at db_task \<rparr>"

definition calculate_etag :: "TaskDB \<Rightarrow> string" where
  "calculate_etag task = [CHR 0x22] @ db_updated_at task @ [CHR 0x22]"

subsection \<open>create_task\<close>

record TaskInput =
  in_title :: string
  in_description :: "string option"
  in_completed :: "bool option"
  in_archived :: "bool option"
  in_priority :: "int option"
  in_due_date :: "string option"
  in_tags :: "string list option"
  in_metadata :: "metadata_dict option"
  in_parent_id :: "string option"

text \<open>
  \<open>new_id\<close> is the value of \<open>str(uuid4())\<close> and \<open>now\<close> the value of \<open>get_utc_now()\<close>. The
  result is the table after the request and the error or the task returned (status 201).
\<close>

definition create_task ::
  "TaskDB list \<Rightarrow> TaskInput \<Rightarrow> string \<Rightarrow> string \<Rightarrow> TaskDB list \<times> (error + Task)"
where
  "create_task db task_input new_id now =
     (let db_task0 =
            \<lparr> db_id = new_id, db_title = in_title task_input,
              db_description = in_description task_input,
              db_completed = (case in_completed task_input of Some c \<Rightarrow> c | None \<Rightarrow> False),
              db_archived = (case in_archived task_input of Some a \<Rightarrow> a | None \<Rightarrow> False),
              db_priority = (case in_priority task_input of Some p \<Rightarrow> p | None \<Rightarrow> 0),
              db_due_date = in_due_date task_input, db_completion_date = None,
              db_parent_id = in_parent_id task_input,
              db_tags = (case in_tags task_input of None \<Rightarrow> None | Some ts \<Rightarrow> set_tags ts),
              db_task_metadata = (case in_metadata task_input of None \<Rightarrow> None
                                  | Some m \<Rightarrow> set_metadata (Some m)),
              db_created_at = now, db_updated_at = now \<rparr>;
          db_task = (if db_completed db_task0
                     then db_task0\<lparr> db_completion_date := Some now \<rparr> else db_task0)
      in
      if truthy (db_parent_id db_task)
         \<and> query_first db (the (db_parent_id db_task)) = None
      then (db, Inl HTTP_422_UNPROCESSABLE_ENTITY)
      else
        (case db_insert db db_task of
           None \<Rightarrow> (db, Inl IntegrityError)
         | Some db' \<Rightarrow> (db', Inr (db_to_task db_task))))"

subsection \<open>update_task\<close>

text \<open>
  \<open>TaskUpdate\<close> after \<open>model_dump(exclude_unset=True)\<close>: for each field, \<open>None\<close> when the
  payload leaves it out, \<open>Some v\<close> when it holds the value \<open>v\<close>, where \<open>v = None\<close> is an
  explicit null.
\<close>

record TaskUpdate =
  upd_title :: "string option option"
  upd_description :: "string option option"
  upd_completed :: "bool option option"
  upd_archived :: "bool option option"
  upd_priority :: "int option option"
  upd_due_date :: "string option option"
  upd_tags :: "string list option option"
  upd_metadata :: "metadata_dict option option"
  upd_parent_id :: "string option option"

text \<open>
  A parsed \<open>datetime\<close>: whether it carries a time zone, and its instant. Python refuses to
  compare a datetime with a zone to one without (\<open>TypeError\<close>). \<open>datetime.fromisoformat\<close>
  is a parameter of the model; \<open>None\<close> is its \<open>ValueError\<close>.
\<close>

type_synonym datetime = "bool \<times> int"

definition parse_datetime ::
  "(string \<Rightarrow> datetime option) \<Rightarrow> string option \<Rightarrow> error + datetime option"
where
  "parse_datetime fromisoformat dt_str =
     (if \<not> truthy dt_str then Inr None
      else
        let s = the dt_str;
            s' = (if last s = CHR ''Z'' then butlast s @ ''+00:00'' else s)
        in (case fromisoformat s' of None \<Rightarrow> Inl ValueError | Some d \<Rightarrow> Inr (Some d)))"

text \<open>The check of \<open>If-Unmodified-Since\<close>: \<open>None\<close> when it passes.\<close>

definition check_if_unmodified_since ::
  "(string \<Rightarrow> datetime option) \<Rightarrow> TaskDB \<Rightarrow> string option \<Rightarrow> error option"
where
  "check_if_unmodified_since fromisoformat task if_unmodified_since =
     (if \<not> truthy if_unmodified_since then None
      else
        (case parse_datetime fromisoformat (Some (db_updated_at task)) of
           Inl e \<Rightarrow> Some e
         | Inr task_updated \<Rightarrow>
             (case parse_datetime fromisoformat if_unmodified_since of
                Inl e \<Rightarrow> Some e
              | Inr client_time \<Rightarrow>
                  (case (task_updated, client_time) of
                     (Some (z1, t1), Some (z2, t2)) \<Rightarrow>
                        if z1 \<noteq> z2 then Some TypeError
                        else if t1 > t2 then Some HTTP_412_PRECONDITION_FAILED
                        else None
                   | _ \<Rightarrow> None))))"

text \<open>The check of \<open>If-Match\<close>.\<close>

definition check_if_match :: "TaskDB \<Rightarrow> string option \<Rightarrow> error option" where
  "check_if_match task if_match =
     (if truthy if_match \<and> the if_match \<noteq> calculate_etag task
      then Some HTTP_412_PRECONDITION_FAILED else None)"

text \<open>The branch \<open>field == "parent_id"\<close> of the loop, the only one that raises.\<close>

definition check_parent :: "TaskDB list \<Rightarrow> TaskDB \<Rightarrow> TaskUpdate \<Rightarrow> error option" where
  "check_parent db task task_update =
     (case upd_parent_id task_update of
        None \<Rightarrow> None
      | Some v \<Rightarrow>
          if truthy v then
            (if query_first db (the v) = None then Some HTTP_422_UNPROCESSABLE_ENTITY
             else if the v = db_id task then Some HTTP_422_UNPROCESSABLE_ENTITY
             else None)
          else None)"

text \<open>A column declared \<open>nullable=False\<close> is assigned an explicit null.\<close>

definition assigns_null :: "TaskUpdate \<Rightarrow> bool" where
  "assigns_null task_update =
     (upd_title task_update = Some None \<or> upd_completed task_update = Some None
      \<or> upd_archived task_update = Some None \<or> upd_priority task_update = Some None)"

text \<open>The assignments of the loop \<open>for field, value in update_data.items()\<close>.\<close>

definition apply_updates :: "TaskDB \<Rightarrow> TaskUpdate \<Rightarrow> TaskDB" where
  "apply_updates task u =
     task\<lparr>
       db_title := (case upd_title u of Some (Some v) \<Rightarrow> v | _ \<Rightarrow> db_title task),
       db_description := (case upd_description u of Some v \<Rightarrow> v | None \<Rightarrow> db_description task),
       db_completed := (case upd_completed u of Some (Some v) \<Rightarrow> v | _ \<Rightarrow> db_completed task),
       db_archived := (case upd_archived u of Some (Some v) \<Rightarrow> v | _ \<Rightarrow> db_archived task),
       db_priority := (case upd_priority u of Some (Some v) \<Rightarrow> v | _ \<Rightarrow> db_priority task),
       db_due_date := (case upd_due_date u of Some v \<Rightarrow> v | None \<Rightarrow> db_due_date task),
       db_tags := (case upd_tags u of
                     Some v \<Rightarrow> (case v of None \<Rightarrow> None | Some ts \<Rightarrow> set_tags ts)
                   | None \<Rightarrow> db_tags task),
       db_task_metadata := (case upd_metadata u of Some v \<Rightarrow> set_metadata v
                            | None \<Rightarrow> db_task_metadata task),
       db_parent_id := (case upd_parent_id u of Some v \<Rightarrow> v | None \<Rightarrow> db_parent_id task) \<rparr>"

text \<open>The block \<open>if "completed" in update_data\<close>; \<open>now\<close> is the value of its \<open>get_utc_now()\<close>.\<close>

definition handle_completion_date :: "bool \<Rightarrow> TaskUpdate \<Rightarrow> string \<Rightarrow> TaskDB \<Rightarrow> TaskDB" where
  "handle_completion_date old_completed u now task =
     (if upd_completed u \<noteq> None then
        (if db_completed task \<and> \<not> old_completed then task\<lparr> db_completion_date := Some now \<rparr>
         else if \<not> db_completed task \<and> old_completed then task\<lparr> db_completion_date := None \<rparr>
         else task)
      else task)"

text \<open>
  \<open>update_task\<close>. \<open>now_completion\<close> and \<open>now_updated\<close> are the values of the two calls of
  \<open>get_utc_now()\<close>. The result is the table after the request and the error or the task
  returned (status 200).
\<close>

definition update_task ::
  "(string \<Rightarrow> datetime option) \<Rightarrow> TaskDB list \<Rightarrow> string \<Rightarrow> TaskUpdate \<Rightarrow> string option \<Rightarrow>
   string option \<Rightarrow> string \<Rightarrow> string \<Rightarrow> TaskDB list \<times> (error + Task)"
where
  "update_task fromisoformat db i task_update if_unmodified_since if_match
       now_completion now_updated =
     (case query_first db i of
        None \<Rightarrow> (db, Inl HTTP_404_NOT_FOUND)
      | Some task \<Rightarrow>
          (case check_if_unmodified_since fromisoformat task if_unmodified_since of
             Some e \<Rightarrow> (db, Inl e)
           | None \<Rightarrow>
               (case check_if_match task if_match of
                  Some e \<Rightarrow> (db, Inl e)
                | None \<Rightarrow>
                    (case check_parent db task task_update of
                       Some e \<Rightarrow> (db, Inl e)
                     | None \<Rightarrow>
                         let old_completed = db_completed task;
                             task1 = apply_updates task task_update;
                             task2 = handle_completion_date old_completed task_update
                                       now_completion task1;
                             task3 = task2\<lparr> db_updated_at := now_updated \<rparr>
                         in
                         if assigns_null task_update then (db, Inl IntegrityError)
                         else
                           (case db_update db task3 of
                              None \<Rightarrow> (db, Inl IntegrityError)
                            | Some db' \<Rightarrow> (db', Inr (db_to_task task3)))))))"

text \<open>A row and a payload for the examples.\<close>

definition example_row :: "string \<Rightarrow> string option \<Rightarrow> TaskDB" where
  "example_row i p =
     \<lparr> db_id = i, db_title = ''t'', db_description = None, db_completed = False,
       db_archived = False, db_priority = 0, db_due_date = None, db_completion_date = None,
       db_parent_id = p, db_tags = None, db_task_metadata = None,
       db_created_at = ''2025-01-01T00:00:00Z'', db_updated_at = ''2025-01-01T00:00:00Z'' \<rparr>"

definition empty_update :: TaskUpdate where
  "empty_update =
     \<lparr> upd_title = None, upd_description = None, upd_completed = None, upd_archived = None,
       upd_priority = None, upd_due_date = None, upd_tags = None, upd_metadata = None,
       upd_parent_id = None \<rparr>"

text \<open>The row written by a successful update.\<close>

definition updated_row :: "TaskDB \<Rightarrow> TaskUpdate \<Rightarrow> string \<Rightarrow> string \<Rightarrow> TaskDB" where
  "updated_row task u now_completion now_updated =
     (handle_completion_date (db_completed task) u now_completion (apply_updates task u))
       \<lparr> db_updated_at := now_updated \<rparr>"

text \<open>No row with a non-empty \<open>parent_id\<close> is its own parent.\<close>

definition self_parent :: "TaskDB \<Rightarrow> bool" where
  "self_parent r = (truthy (db_parent_id r) \<and> db_parent_id r = Some (db_id r))"

definition no_self_parent :: "TaskDB list \<Rightarrow> bool" where
  "no_self_parent db = list_all (\<lambda>r. \<not> self_parent r) db"

text \<open>\<open>existing_ids\<close> and the records that are left after the conflict policy.\<close>

definition existing_ids_of :: "TaskDB list \<Rightarrow> Task list \<Rightarrow> string list" where
  "existing_ids_of db tasks = map db_id (filter (\<lambda>r. db_id r \<in> set (map task_id tasks)) db)"

definition kept_tasks :: "TaskDB list \<Rightarrow> Task list \<Rightarrow> string \<Rightarrow> Task list" where
  "kept_tasks db tasks on_conflict =
     (if existing_ids_of db tasks \<noteq> [] \<and> on_conflict = ''skip''
      then filter (\<lambda>task. task_id task \<notin> set (existing_ids_of db tasks)) tasks
      else tasks)"




text \<open>
  The checks that stand between an existing task and its update: the two preconditions,
  the parent check of the loop, and the storage engine's checks at commit.
\<close>

definition update_accepted ::
  "(string \<Rightarrow> datetime option) \<Rightarrow> TaskDB list \<Rightarrow> TaskDB \<Rightarrow> TaskUpdate \<Rightarrow> string option \<Rightarrow>
   string option \<Rightarrow> string \<Rightarrow> string \<Rightarrow> bool" where
  "update_accepted fromisoformat db task u if_unmodified_since if_match n1 n2 =
     (check_if_unmodified_since fromisoformat task if_unmodified_since = None
      \<and> check_if_match task if_match = None
      \<and> check_parent db task u = None
      \<and> \<not> assigns_null u
      \<and> fk_ok (map db_id db) (updated_row task u n1 n2))"


section \<open>Listing and export (server.py, list_tasks and export_tasks)\<close>

subsection \<open>Text of the tags column and SQLite's LIKE\<close>

text \<open>\<open>str.lower\<close> on code points below 256.\<close>

definition lower_char :: "char \<Rightarrow> char" where
  "lower_char c = (let n = (of_char c :: nat) in
     if (65 \<le> n \<and> n \<le> 90) \<or> (192 \<le> n \<and> n \<le> 222 \<and> n \<noteq> 215) then char_of (n + 32) else c)"

definition lower :: "string \<Rightarrow> string" where
  "lower s = map lower_char s"

definition hex_digit :: "nat \<Rightarrow> char" where
  "hex_digit n = ''0123456789abcdef'' ! (n mod 16)"

text \<open>\<open>json.dumps\<close> of one character of a string, with \<open>ensure_ascii\<close> as by default.\<close>

definition json_escape_char :: "char \<Rightarrow> string" where
  "json_escape_char c = (let n = (of_char c :: nat) in
     if n = 34 then [CHR 0x5C, CHR 0x22]
     else if n = 92 then [CHR 0x5C, CHR 0x5C]
     else if n = 10 then [CHR 0x5C, CHR ''n'']
     else if n = 13 then [CHR 0x5C, CHR ''r'']
     else if n = 9 then [CHR 0x5C, CHR ''t'']
     else if n = 8 then [CHR 0x5C, CHR ''b'']
     else if n = 12 then [CHR 0x5C, CHR ''f'']
     else if n < 32 \<or> 126 < n
       then [CHR 0x5C, CHR ''u'', CHR ''0'', CHR ''0'', hex_digit (n div 16), hex_digit n]
     else [c])"

definition json_dumps_str :: "string \<Rightarrow> string" where
  "json_dumps_str s = [CHR 0x22] @ concat (map json_escape_char s) @ [CHR 0x22]"

fun join_comma :: "string list \<Rightarrow> string" where
  "join_comma [] = []"
| "join_comma [x] = x"
| "join_comma (x # y # ys) = x @ '', '' @ join_comma (y # ys)"

text \<open>The text of the column \<open>tags\<close>: \<open>json.dumps\<close> of a list of strings.\<close>

definition json_dumps_tags :: "string list \<Rightarrow> string" where
  "json_dumps_tags ts = ''['' @ join_comma (map json_dumps_str ts) @ '']''"

text \<open>SQLite folds the case of the ASCII letters only.\<close>

definition sqlite_fold :: "char \<Rightarrow> char" where
  "sqlite_fold c = (let n = (of_char c :: nat) in
     if 65 \<le> n \<and> n \<le> 90 then char_of (n + 32) else c)"

text \<open>
  \<open>like pattern text\<close>: SQLite's \<open>text LIKE pattern\<close> without an escape character:
  \<open>%\<close> matches any run of characters, \<open>_\<close> exactly one.
\<close>

fun like :: "string \<Rightarrow> string \<Rightarrow> bool" where
  "like [] s = (s = [])"
| "like (p # ps) [] = (p = CHR ''%'' \<and> like ps [])"
| "like (p # ps) (c # cs) =
     (if p = CHR ''%'' then like ps (c # cs) \<or> like (p # ps) cs
      else (p = CHR ''_'' \<or> sqlite_fold p = sqlite_fold c) \<and> like ps cs)"

text \<open>A comparison with a NULL column is not true.\<close>

definition like_col :: "string \<Rightarrow> string option \<Rightarrow> bool" where
  "like_col pattern col = (case col of None \<Rightarrow> False | Some s \<Rightarrow> like pattern s)"

definition tags_text :: "TaskDB \<Rightarrow> string option" where
  "tags_text r = map_option json_dumps_tags (db_tags r)"

subsection \<open>The filters of list_tasks\<close>

record ListQuery =
  q_completed :: "bool option"
  q_archived :: "bool option"
  q_priority :: "int option"
  q_tag :: "string list option"
  q_parent_id :: "string option"
  q_search :: "string option"
  q_due_before :: "string option"
  q_due_after :: "string option"
  q_overdue :: "bool option"
  q_sort_by :: string
  q_order :: string
  q_limit :: nat
  q_offset :: nat

definition filter_completed :: "bool option \<Rightarrow> TaskDB list \<Rightarrow> TaskDB list" where
  "filter_completed c query =
     (case c of None \<Rightarrow> query | Some v \<Rightarrow> filter (\<lambda>r. db_completed r = v) query)"

definition filter_archived :: "bool option \<Rightarrow> TaskDB list \<Rightarrow> TaskDB list" where
  "filter_archived a query =
     (case a of None \<Rightarrow> query | Some v \<Rightarrow> filter (\<lambda>r. db_archived r = v) query)"

definition filter_priority :: "int option \<Rightarrow> TaskDB list \<Rightarrow> TaskDB list" where
  "filter_priority p query =
     (case p of None \<Rightarrow> query | Some v \<Rightarrow> filter (\<lambda>r. db_priority r = v) query)"

definition filter_parent :: "string option \<Rightarrow> TaskDB list \<Rightarrow> TaskDB list" where
  "filter_parent p query =
     (if p = None \<or> p = Some ''null'' then filter (\<lambda>r. db_parent_id r = None) query
      else filter (\<lambda>r. db_parent_id r = p) query)"

definition tag_pattern :: "string \<Rightarrow> string" where
  "tag_pattern tag_filter = ''%'' @ [CHR 0x22] @ lower (strip tag_filter) @ [CHR 0x22] @ ''%''"

fun filter_tags_loop :: "string list \<Rightarrow> TaskDB list \<Rightarrow> TaskDB list" where
  "filter_tags_loop [] query = query"
| "filter_tags_loop (tag_filter # rest) query =
     filter_tags_loop rest (filter (\<lambda>r. like_col (tag_pattern tag_filter) (tags_text r)) query)"

definition filter_tags :: "string list option \<Rightarrow> TaskDB list \<Rightarrow> TaskDB list" where
  "filter_tags tag query =
     (case tag of None \<Rightarrow> query | Some ts \<Rightarrow> if ts \<noteq> [] then filter_tags_loop ts query else query)"

definition filter_search :: "string option \<Rightarrow> TaskDB list \<Rightarrow> TaskDB list" where
  "filter_search search query =
     (if truthy search
      then filter (\<lambda>r. like (''%'' @ the search @ ''%'') (db_title r)
                       \<or> like_col (''%'' @ the search @ ''%'') (db_description r)) query
      else query)"

definition filter_due_before :: "string option \<Rightarrow> TaskDB list \<Rightarrow> TaskDB list" where
  "filter_due_before due_before query =
     (if truthy due_before
      then filter (\<lambda>r. case db_due_date r of None \<Rightarrow> False | Some d \<Rightarrow> d < the due_before) query
      else query)"

definition filter_due_after :: "string option \<Rightarrow> TaskDB list \<Rightarrow> TaskDB list" where
  "filter_due_after due_after query =
     (if truthy due_after
      then filter (\<lambda>r. case db_due_date r of None \<Rightarrow> False | Some d \<Rightarrow> d > the due_after) query
      else query)"

definition filter_overdue :: "bool option \<Rightarrow> string \<Rightarrow> TaskDB list \<Rightarrow> TaskDB list" where
  "filter_overdue overdue now query =
     (if overdue = Some True
      then filter (\<lambda>r. (case db_due_date r of None \<Rightarrow> False | Some d \<Rightarrow> d < now)
                       \<and> db_completed r = False) query
      else query)"

text \<open>The query before \<open>query.count()\<close>; \<open>now\<close> is the value of \<open>get_utc_now()\<close>.\<close>

definition filtered_query :: "ListQuery \<Rightarrow> string \<Rightarrow> TaskDB list \<Rightarrow> TaskDB list" where
  "filtered_query q now db =
     filter_overdue (q_overdue q) now
      (filter_due_after (q_due_after q)
        (filter_due_before (q_due_before q)
          (filter_search (q_search q)
            (filter_tags (q_tag q)
              (filter_parent (q_parent_id q)
                (filter_priority (q_priority q)
                  (filter_archived (q_archived q)
                    (filter_completed (q_completed q) db))))))))"


subsection \<open>Ordering and pagination\<close>

datatype sort_value = SNull | SInt int | SStr string

definition sort_col :: "string \<Rightarrow> TaskDB \<Rightarrow> sort_value" where
  "sort_col sort_by r =
     (if sort_by = ''created_at'' then SStr (db_created_at r)
      else if sort_by = ''updated_at'' then SStr (db_updated_at r)
      else if sort_by = ''title'' then SStr (db_title r)
      else if sort_by = ''priority'' then SInt (db_priority r)
      else if sort_by = ''due_date''
        then (case db_due_date r of None \<Rightarrow> SNull | Some d \<Rightarrow> SStr d)
      else if sort_by = ''completed'' then SInt (if db_completed r then 1 else 0)
      else SStr (db_created_at r))"

text \<open>SQLite's order of the values of one column: NULL first, then by value.\<close>

fun value_less :: "sort_value \<Rightarrow> sort_value \<Rightarrow> bool" where
  "value_less SNull SNull = False"
| "value_less SNull _ = True"
| "value_less _ SNull = False"
| "value_less (SInt a) (SInt b) = (a < b)"
| "value_less (SStr a) (SStr b) = (a < b)"
| "value_less (SInt a) (SStr b) = True"
| "value_less (SStr a) (SInt b) = False"

text \<open>\<open>a\<close> comes strictly before \<open>b\<close> under \<open>sort_col.asc()\<close> or \<open>.desc()\<close>, with
  \<open>.nullslast()\<close> for \<open>title\<close> and \<open>due_date\<close>.\<close>

definition col_before :: "string \<Rightarrow> string \<Rightarrow> sort_value \<Rightarrow> sort_value \<Rightarrow> bool" where
  "col_before sort_by order a b =
     (if sort_by = ''title'' \<or> sort_by = ''due_date'' then
        (if a = SNull \<or> b = SNull then a \<noteq> SNull \<and> b = SNull
         else if order = ''asc'' then value_less a b else value_less b a)
      else if order = ''asc'' then value_less a b else value_less b a)"

text \<open>The whole \<open>order_by\<close>: the column, then \<open>created_at\<close> descending.\<close>

definition row_before :: "string \<Rightarrow> string \<Rightarrow> TaskDB \<Rightarrow> TaskDB \<Rightarrow> bool" where
  "row_before sort_by order r1 r2 =
     (col_before sort_by order (sort_col sort_by r1) (sort_col sort_by r2)
      \<or> (\<not> col_before sort_by order (sort_col sort_by r2) (sort_col sort_by r1)
          \<and> db_created_at r2 < db_created_at r1))"

text \<open>Rows that the ordering does not separate stay in table order.\<close>

fun insort_by :: "('a \<Rightarrow> 'a \<Rightarrow> bool) \<Rightarrow> 'a \<Rightarrow> 'a list \<Rightarrow> 'a list" where
  "insort_by before x [] = [x]"
| "insort_by before x (y # ys) =
     (if before y x then y # insort_by before x ys else x # y # ys)"

definition order_by :: "('a \<Rightarrow> 'a \<Rightarrow> bool) \<Rightarrow> 'a list \<Rightarrow> 'a list" where
  "order_by before xs = foldr (insort_by before) xs []"

record TaskList =
  tl_data :: "Task list"
  tl_total :: nat
  tl_limit :: nat
  tl_offset :: nat

definition list_tasks :: "TaskDB list \<Rightarrow> ListQuery \<Rightarrow> string \<Rightarrow> TaskList" where
  "list_tasks db q now =
     (let query = filtered_query q now db;
          total = length query;
          tasks = take (q_limit q)
                    (drop (q_offset q) (order_by (row_before (q_sort_by q) (q_order q)) query))
      in \<lparr> tl_data = map db_to_task tasks, tl_total = total, tl_limit = q_limit q,
           tl_offset = q_offset q \<rparr>)"

subsection \<open>export_tasks\<close>


text \<open>A query without filters, for the examples.\<close>

definition default_query :: ListQuery where
  "default_query =
     \<lparr> q_completed = None, q_archived = None, q_priority = None, q_tag = None,
       q_parent_id = None, q_search = None, q_due_before = None, q_due_after = None,
       q_overdue = None, q_sort_by = ''created_at'', q_order = ''desc'', q_limit = 100,
       q_offset = 0 \<rparr>"

subsection \<open>Notions used to state the properties of listing and export\<close>


definition tagged_row :: "string \<Rightarrow> string list \<Rightarrow> TaskDB" where
  "tagged_row i ts = (example_row i None)\<lparr> db_tags := set_tags ts \<rparr>"

definition tag_query :: "string list \<Rightarrow> ListQuery" where
  "tag_query ts = default_query\<lparr> q_tag := Some ts \<rparr>"

text \<open>
  What the storage layer guarantees of every table: the key is unique and every \<open>parent_id\<close>
  that is not NULL is the id of a row (\<open>fk_ok\<close>); \<open>tags\<close> holds what \<open>set_tags\<close> writes (NULL or a
  non-empty list of stripped strings) and \<open>task_metadata\<close> what \<open>set_metadata\<close> writes (NULL or
  a non-empty object). \<open>store_ok\<close> asks in addition that no \<open>parent_id\<close> is the empty string.
\<close>

definition tags_normal :: "TaskDB \<Rightarrow> bool" where
  "tags_normal r = (case db_tags r of None \<Rightarrow> True | Some ts \<Rightarrow> ts \<noteq> [] \<and> map strip ts = ts)"







section \<open>Properties of the processing order\<close>

lemma add_task_with_parents_chain:
  "add_task_with_parents n by_id t (s, P) =
     map_option (\<lambda>c. (s @ c, P \<union> task_id ` set c)) (chain n by_id P t)"
proof (induction n arbitrary: t)
  case 0
  show ?case by simp
next
  case (Suc n)
  show ?case
    by (cases "in_batch_parent by_id t"; cases "chain n by_id P (the (in_batch_parent by_id t))")
       (auto simp: Suc)
qed

lemma chain_mono: "chain n by_id P t = Some c \<Longrightarrow> chain (n + m) by_id P t = Some c"
proof (induction n arbitrary: t c)
  case 0
  then show ?case by simp
next
  case (Suc n)
  then show ?case
    by (auto split: if_splits option.splits)
qed

lemma chain_fuel_unique:
  assumes "chain n by_id P t = Some c" "chain m by_id P t = Some d"
  shows "c = d"
proof -
  have "chain (n + m) by_id P t = Some c" using assms(1) by (rule chain_mono)
  moreover have "chain (m + n) by_id P t = Some d" using assms(2) by (rule chain_mono)
  ultimately show ?thesis by (simp add: add.commute)
qed

lemma chain_sub:
  "chain n by_id P t = Some c \<Longrightarrow> y \<in> set c \<Longrightarrow>
     \<exists>k d. chain k by_id P y = Some d \<and> length d \<le> length c \<and> d \<noteq> []"
proof (induction n arbitrary: t c)
  case 0
  then show ?case by simp
next
  case (Suc n)
  show ?case
  proof (cases "task_id t \<in> P")
    case True
    with Suc.prems show ?thesis by simp
  next
    case False
    show ?thesis
    proof (cases "in_batch_parent by_id t")
      case None
      with False Suc.prems have "c = [t]" "y = t" by auto
      with Suc.prems(1) show ?thesis by (intro exI[of _ "Suc n"] exI[of _ c]) simp
    next
      case (Some p)
      with False Suc.prems(1) obtain c' where c': "chain n by_id P p = Some c'" "c = c' @ [t]"
        by auto
      show ?thesis
      proof (cases "y \<in> set c'")
        case True
        from Suc.IH[OF c'(1) True] c'(2) show ?thesis by fastforce
      next
        case False
        with Suc.prems(2) c'(2) have "y = t" by simp
        with Suc.prems(1) c'(2) show ?thesis
          by (intro exI[of _ "Suc n"] exI[of _ c]) simp
      qed
    qed
  qed
qed

lemma chain_not_processed:
  "chain n by_id P t = Some c \<Longrightarrow> y \<in> set c \<Longrightarrow> task_id y \<notin> P"
  by (induction n arbitrary: t c) (auto split: if_splits option.splits)

lemma chain_covers:
  "chain n by_id P t = Some c \<Longrightarrow> task_id t \<in> P \<union> task_id ` set c"
  by (cases n) (auto split: if_splits option.splits)

lemma tasks_by_id_SomeD:
  "tasks_by_id ts k = Some p \<Longrightarrow> p \<in> set ts \<and> task_id p = k"
  unfolding tasks_by_id_def by (auto dest!: map_of_SomeD)

lemma tasks_by_id_distinct:
  "distinct (map task_id ts) \<Longrightarrow> t \<in> set ts \<Longrightarrow> tasks_by_id ts (task_id t) = Some t"
  unfolding tasks_by_id_def
  by (rule map_of_is_SomeI) (auto simp: rev_map[symmetric] comp_def distinct_rev)

lemma in_batch_parent_SomeD:
  "in_batch_parent (tasks_by_id ts) t = Some p \<Longrightarrow>
     p \<in> set ts \<and> parent_id t = Some (task_id p) \<and> task_id p \<noteq> []"
  unfolding in_batch_parent_def
  by (auto split: option.splits if_splits dest: tasks_by_id_SomeD)

lemma chain_in_batch:
  "chain n (tasks_by_id ts) P t = Some c \<Longrightarrow> t \<in> set ts \<Longrightarrow> set c \<subseteq> set ts"
proof (induction n arbitrary: t c)
  case 0
  then show ?case by simp
next
  case (Suc n)
  then show ?case
    by (fastforce split: if_splits option.splits dest: in_batch_parent_SomeD)
qed

lemma chain_distinct:
  assumes d: "distinct (map task_id ts)"
  shows "chain n (tasks_by_id ts) P t = Some c \<Longrightarrow> t \<in> set ts \<Longrightarrow> distinct (map task_id c)"
proof (induction n arbitrary: t c)
  case 0
  then show ?case by simp
next
  case (Suc n)
  show ?case
  proof (cases "task_id t \<in> P")
    case True
    with Suc.prems show ?thesis by simp
  next
    case False
    show ?thesis
    proof (cases "in_batch_parent (tasks_by_id ts) t")
      case None
      with False Suc.prems show ?thesis by auto
    next
      case (Some p)
      with False Suc.prems(1) obtain c' where
        c': "chain n (tasks_by_id ts) P p = Some c'" "c = c' @ [t]"
        by auto
      from Some have p: "p \<in> set ts" by (simp add: in_batch_parent_SomeD)
      have dc': "distinct (map task_id c')" using Suc.IH[OF c'(1) p] .
      have sub: "set c' \<subseteq> set ts" using chain_in_batch[OF c'(1) p] .
      have "task_id t \<notin> task_id ` set c'"
      proof
        assume "task_id t \<in> task_id ` set c'"
        then obtain y where y: "y \<in> set c'" "task_id y = task_id t" by auto
        with sub Suc.prems(2) d have "y = t"
          by (metis distinct_map inj_onD subsetD)
        with y have "t \<in> set c'" by simp
        from chain_sub[OF c'(1) this] obtain k e where
          e: "chain k (tasks_by_id ts) P t = Some e" "length e \<le> length c'" by blast
        from chain_fuel_unique[OF e(1) Suc.prems(1)] have "e = c" .
        with e(2) c'(2) show False by simp
      qed
      with dc' c'(2) show ?thesis by simp
    qed
  qed
qed

lemma parents_first_append:
  "parents_first by_id seen (xs @ ys) =
     (parents_first by_id seen xs \<and> parents_first by_id (seen @ xs) ys)"
  by (induction xs arbitrary: seen) auto

lemma chain_parents_first:
  assumes d: "distinct (map task_id ts)" and P: "P = task_id ` set s" and s: "set s \<subseteq> set ts"
  shows "chain n (tasks_by_id ts) P t = Some c \<Longrightarrow> t \<in> set ts \<Longrightarrow>
         parents_first (tasks_by_id ts) s c"
proof (induction n arbitrary: t c)
  case 0
  then show ?case by simp
next
  case (Suc n)
  show ?case
  proof (cases "task_id t \<in> P")
    case True
    with Suc.prems show ?thesis by simp
  next
    case False
    show ?thesis
    proof (cases "in_batch_parent (tasks_by_id ts) t")
      case None
      with False Suc.prems show ?thesis by auto
    next
      case (Some p)
      with False Suc.prems(1) obtain c' where
        c': "chain n (tasks_by_id ts) P p = Some c'" "c = c' @ [t]"
        by auto
      from Some have p: "p \<in> set ts" by (simp add: in_batch_parent_SomeD)
      have sub: "set c' \<subseteq> set ts" using chain_in_batch[OF c'(1) p] .
      from chain_covers[OF c'(1)] P have "task_id p \<in> task_id ` (set s \<union> set c')"
        by (simp add: image_Un)
      then obtain q where
        q: "q \<in> set s \<union> set c'" "task_id q = task_id p" by (metis imageE)
      with s sub have "q \<in> set ts" by auto
      with q(2) p d have "q = p" by (metis distinct_map inj_onD)
      with q(1) have "p \<in> set (s @ c')" by simp
      with Suc.IH[OF c'(1) p] Some c'(2) show ?thesis
        by (simp add: parents_first_append)
    qed
  qed
qed

lemma add_task_with_parents_inv:
  assumes d: "distinct (map task_id ts)" and inv: "sort_inv ts st" and t: "t \<in> set ts"
    and r: "add_task_with_parents n (tasks_by_id ts) t st = Some st'"
  shows "sort_inv ts st' \<and> task_id t \<in> snd st' \<and> snd st \<subseteq> snd st'"
proof -
  obtain s P where st: "st = (s, P)" by (cases st)
  from inv st have P: "P = task_id ` set s" and s: "set s \<subseteq> set ts"
    and ds: "distinct (map task_id s)" and pf: "parents_first (tasks_by_id ts) [] s"
    by (simp_all add: sort_inv_def)
  from r st obtain c where c: "chain n (tasks_by_id ts) P t = Some c"
    and st': "st' = (s @ c, P \<union> task_id ` set c)"
    by (auto simp: add_task_with_parents_chain)
  have 1: "set c \<subseteq> set ts" using chain_in_batch[OF c t] .
  have 2: "distinct (map task_id c)" using chain_distinct[OF d c t] .
  have 3: "task_id ` set s \<inter> task_id ` set c = {}"
  proof -
    have "False" if "x \<in> set s" "y \<in> set c" "task_id x = task_id y" for x y
    proof -
      from that(1,3) have "task_id y \<in> task_id ` set s" by (metis imageI)
      with chain_not_processed[OF c that(2)] P show False by simp
    qed
    then show ?thesis by blast
  qed
  have 4: "parents_first (tasks_by_id ts) s c" using chain_parents_first[OF d P s c t] .
  have "sort_inv ts st'"
    unfolding sort_inv_def st' using P s ds pf 1 2 3 4
    by (simp add: parents_first_append image_Un)
  moreover have "task_id t \<in> snd st'" using chain_covers[OF c] st' by simp
  moreover have "snd st \<subseteq> snd st'" using st st' by auto
  ultimately show ?thesis by blast
qed

lemma add_all_inv:
  assumes d: "distinct (map task_id ts)"
  shows "add_all n (tasks_by_id ts) rest st = Some st' \<Longrightarrow> sort_inv ts st \<Longrightarrow>
         set rest \<subseteq> set ts \<Longrightarrow>
         sort_inv ts st' \<and> task_id ` set rest \<subseteq> snd st' \<and> snd st \<subseteq> snd st'"
proof (induction rest arbitrary: st)
  case Nil
  then show ?case by simp
next
  case (Cons t rest)
  from Cons.prems(1) obtain st1 where
    1: "add_task_with_parents n (tasks_by_id ts) t st = Some st1"
    and 2: "add_all n (tasks_by_id ts) rest st1 = Some st'"
    by (auto split: option.splits)
  from Cons.prems(3) have t: "t \<in> set ts" and rest: "set rest \<subseteq> set ts" by auto
  from add_task_with_parents_inv[OF d Cons.prems(2) t 1]
  have a: "sort_inv ts st1" "task_id t \<in> snd st1" "snd st \<subseteq> snd st1" by auto
  from Cons.IH[OF 2 a(1) rest]
  have b: "sort_inv ts st'" "task_id ` set rest \<subseteq> snd st'" "snd st1 \<subseteq> snd st'" by auto
  from a b show ?case by auto
qed

lemma sort_tasks_sound:
  assumes d: "distinct (map task_id ts)" and r: "sort_tasks n ts = Some r"
  shows "mset r = mset ts \<and> parents_first (tasks_by_id ts) [] r"
proof -
  from r obtain P where a: "add_all n (tasks_by_id ts) ts ([], {}) = Some (r, P)"
    by (auto simp: sort_tasks_def)
  have "sort_inv ts ([], {})" by (simp add: sort_inv_def)
  from add_all_inv[OF d a this]
  have inv: "sort_inv ts (r, P)" and cov: "task_id ` set ts \<subseteq> P" by auto
  from inv have P: "P = task_id ` set r" and sub: "set r \<subseteq> set ts"
    and dr: "distinct (map task_id r)" and pf: "parents_first (tasks_by_id ts) [] r"
    by (simp_all add: sort_inv_def)
  have "set ts \<subseteq> set r"
  proof
    fix t assume t: "t \<in> set ts"
    with cov P obtain q where q: "q \<in> set r" "task_id q = task_id t" by auto
    with sub t d have "q = t" by (metis distinct_map inj_onD subsetD)
    with q show "t \<in> set r" by simp
  qed
  with sub have "set r = set ts" by auto
  moreover from dr have "distinct r" by (simp add: distinct_map)
  moreover from d have "distinct ts" by (simp add: distinct_map)
  ultimately have "mset r = mset ts" by (simp add: set_eq_iff_mset_eq_distinct)
  with pf show ?thesis by simp
qed

lemma parent_chain_ends_chain:
  "parent_chain_ends k by_id t \<Longrightarrow> \<exists>c. chain k by_id P t = Some c"
  by (induction k arbitrary: t) (auto split: option.splits)

lemma add_all_total:
  "\<forall>t\<in>set rest. parent_chain_ends k by_id t \<Longrightarrow> \<exists>st'. add_all k by_id rest st = Some st'"
proof (induction rest arbitrary: st)
  case Nil
  then show ?case by simp
next
  case (Cons t rest)
  obtain s P where st: "st = (s, P)" by (cases st)
  from Cons.prems have "parent_chain_ends k by_id t" by simp
  from parent_chain_ends_chain[OF this] obtain c where "chain k by_id P t = Some c" by blast
  with st have "add_task_with_parents k by_id t st = Some (s @ c, P \<union> task_id ` set c)"
    by (simp add: add_task_with_parents_chain)
  with Cons show ?case by simp
qed

lemma sort_tasks_total:
  "acyclic_batch ts \<Longrightarrow> \<exists>r. sort_tasks (length ts) ts = Some r"
  using add_all_total[of ts "length ts" "tasks_by_id ts" "([], {})"]
  by (auto simp: acyclic_batch_def sort_tasks_def list_all_iff)

lemma parent_chain_ends_mono:
  "parent_chain_ends k by_id t \<Longrightarrow> parent_chain_ends (k + m) by_id t"
  by (induction k arbitrary: t) (auto split: option.splits)

lemma parents_first_chain_ends:
  "parents_first by_id seen r \<Longrightarrow> \<forall>x\<in>set seen. parent_chain_ends k by_id x \<Longrightarrow>
     \<forall>x\<in>set r. parent_chain_ends (k + length r) by_id x"
proof (induction r arbitrary: seen k)
  case Nil
  then show ?case by simp
next
  case (Cons t rest)
  have t: "parent_chain_ends (Suc k) by_id t"
    using Cons.prems by (auto split: option.splits)
  have "\<forall>x\<in>set (seen @ [t]). parent_chain_ends (Suc k) by_id x"
    using t Cons.prems(2) parent_chain_ends_mono[of k by_id _ 1] by auto
  with Cons.IH[of "seen @ [t]" "Suc k"] Cons.prems(1)
  have "\<forall>x\<in>set rest. parent_chain_ends (Suc k + length rest) by_id x" by simp
  moreover from t have "parent_chain_ends (Suc k + length rest) by_id t"
    by (rule parent_chain_ends_mono)
  ultimately show ?case by simp
qed

lemma sort_tasks_acyclic:
  assumes d: "distinct (map task_id ts)" and r: "sort_tasks n ts = Some r"
  shows "acyclic_batch ts"
proof -
  from sort_tasks_sound[OF d r] have m: "mset r = mset ts"
    and pf: "parents_first (tasks_by_id ts) [] r" by auto
  from m have "length r = length ts" "set r = set ts"
    by (metis size_mset, metis set_mset_mset)
  with parents_first_chain_ends[OF pf, of 0] show ?thesis
    by (simp add: acyclic_batch_def list_all_iff)
qed

lemma parents_first_inserted_before:
  "parents_first by_id seen r \<Longrightarrow> in_batch_parent by_id b = Some a \<Longrightarrow> b \<in> set r \<Longrightarrow>
     a \<notin> set seen \<Longrightarrow> inserted_before a b r"
proof (induction r arbitrary: seen)
  case Nil
  then show ?case by simp
next
  case (Cons t rest)
  then show ?case by (cases "t = a"; cases "t = b") auto
qed



lemma duplicate_ids_iff: "length xs \<noteq> length (remdups xs) \<longleftrightarrow> \<not> distinct xs"
  by (metis distinct_remdups_id length_remdups_eq remdups_id_iff_distinct)

section \<open>Claims about the import batch\<close>

text \<open>
  Claim C8. A batch that holds the same id on two or more records is refused with status
  422 (the spec's \<open>ValidationError\<close>), whatever \<open>on_conflict\<close>, \<open>validate_only\<close> and the
  recursion limit are, and the table is returned as it was.
\<close>
theorem import_duplicate_ids_rejected:
  assumes "\<not> distinct (map task_id tasks)"
  shows "import_tasks db tasks validate_only on_conflict recursion_limit =
           (db, Inl HTTP_422_UNPROCESSABLE_ENTITY)"
  using assms by (simp add: import_tasks_def duplicate_ids_iff Let_def)

theorem import_duplicate_ids_rejected_witness:
  "\<not> distinct (map task_id [example_task ''a'' None, example_task ''a'' (Some ''b'')]) \<and>
   import_tasks [] [example_task ''a'' None, example_task ''a'' (Some ''b'')] True ''upsert'' 1000
     = ([], Inl HTTP_422_UNPROCESSABLE_ENTITY)"
proof -
  have h: "\<not> distinct (map task_id [example_task ''a'' None, example_task ''a'' (Some ''b'')])"
    by (simp add: example_task_def)
  from h import_duplicate_ids_rejected[OF h] show ?thesis by simp
qed





lemma ex2_distinct: "distinct (map task_id [example_task ''A'' (Some ''B''), example_task ''B'' (Some ''A'')])"
  by (simp add: example_task_def)

lemma ex2_cyclic: "\<not> acyclic_batch [example_task ''A'' (Some ''B''), example_task ''B'' (Some ''A'')]"
  by (simp add: acyclic_batch_def tasks_by_id_def in_batch_parent_def example_task_def numeral_2_eq_2)









section \<open>Properties of update_task\<close>

lemma query_first_SomeD: "query_first db i = Some r \<Longrightarrow> r \<in> set db \<and> db_id r = i"
  unfolding query_first_def by (auto simp: find_Some_iff)

lemma query_first_None_iff: "query_first db i = None \<longleftrightarrow> i \<notin> set (map db_id db)"
  unfolding query_first_def by (auto simp: find_None_iff)

lemma query_first_map_replace:
  "query_first db i = Some r \<Longrightarrow> db_id r' = i \<Longrightarrow>
   query_first (map (\<lambda>x. if db_id x = i then r' else x) db) i = Some r'"
  unfolding query_first_def by (induction db) (auto split: if_splits)

lemma db_id_apply_updates [simp]: "db_id (apply_updates task u) = db_id task"
  by (simp add: apply_updates_def)

lemma db_id_handle_completion_date [simp]:
  "db_id (handle_completion_date oc u now task) = db_id task"
  by (simp add: handle_completion_date_def)

lemma update_task_success:
  assumes q: "query_first db i = Some task"
    and r: "update_task f db i u ius im n1 n2 = (db', Inr t')"
  shows "t' = db_to_task (updated_row task u n1 n2)
       \<and> query_first db' i = Some (updated_row task u n1 n2)
       \<and> db' = map (\<lambda>x. if db_id x = i then updated_row task u n1 n2 else x) db
       \<and> \<not> assigns_null u \<and> check_parent db task u = None"
proof -
  from q have i: "db_id task = i" by (simp add: query_first_SomeD)
  from r q have 1: "t' = db_to_task (updated_row task u n1 n2)"
    and 2: "db' = map (\<lambda>x. if db_id x = i then updated_row task u n1 n2 else x) db"
    and 3: "\<not> assigns_null u" and 4: "check_parent db task u = None"
    by (auto simp: update_task_def updated_row_def db_update_def Let_def i
             split: option.splits if_splits)
  have "db_id (updated_row task u n1 n2) = i" by (simp add: updated_row_def i)
  from query_first_map_replace[OF q this] 1 2 3 4 show ?thesis by simp
qed

lemma completion_date_updated_row:
  "\<not> assigns_null u \<Longrightarrow>
   db_completion_date (updated_row task u n1 n2) =
     (case upd_completed u of
        None \<Rightarrow> db_completion_date task
      | Some v \<Rightarrow> if the v \<and> \<not> db_completed task then Some n1
                  else if \<not> the v \<and> db_completed task then None
                  else db_completion_date task)"
  by (auto simp: updated_row_def handle_completion_date_def apply_updates_def assigns_null_def
           split: option.splits)

lemma update_task_accepted:
  assumes q: "query_first db i = Some task"
    and a: "update_accepted f db task u ius im n1 n2"
  shows "update_task f db i u ius im n1 n2 =
           (map (\<lambda>x. if db_id x = i then updated_row task u n1 n2 else x) db,
            Inr (db_to_task (updated_row task u n1 n2)))"
proof -
  from q have i: "db_id task = i" by (simp add: query_first_SomeD)
  have "db_id (updated_row task u n1 n2) = i" by (simp add: updated_row_def i)
  with q a show ?thesis
    by (simp add: update_task_def update_accepted_def updated_row_def db_update_def Let_def)
qed

lemma update_task_rejected:
  assumes q: "query_first db i = Some task"
    and a: "\<not> update_accepted f db task u ius im n1 n2"
  shows "fst (update_task f db i u ius im n1 n2) = db
       \<and> (\<exists>e. snd (update_task f db i u ius im n1 n2) = Inl e)"
  using q a
  by (auto simp: update_task_def update_accepted_def updated_row_def db_update_def Let_def
        split: option.splits)

lemmas update_eval =
  update_task_def query_first_def check_if_unmodified_since_def check_if_match_def
  check_parent_def assigns_null_def apply_updates_def handle_completion_date_def
  db_update_def fk_ok_def db_to_task_def get_tags_def get_metadata_def truthy_def
  calculate_etag_def example_row_def empty_update_def Let_def

lemma ex_update_complete:
  "update_task (\<lambda>_. None) [example_row ''a'' None] ''a''
     (empty_update\<lparr> upd_completed := Some (Some True) \<rparr>) None None ''T1'' ''T2''
   = ([(example_row ''a'' None)\<lparr> db_completed := True, db_completion_date := Some ''T1'',
          db_updated_at := ''T2'' \<rparr>],
      Inr (db_to_task ((example_row ''a'' None)\<lparr> db_completed := True,
          db_completion_date := Some ''T1'', db_updated_at := ''T2'' \<rparr>)))"
  by (simp add: update_eval)

lemma ex_update_reopen:
  "update_task (\<lambda>_. None)
     [(example_row ''a'' None)\<lparr> db_completed := True, db_completion_date := Some ''T0'' \<rparr>] ''a''
     (empty_update\<lparr> upd_completed := Some (Some False) \<rparr>) None None ''T1'' ''T2''
   = ([(example_row ''a'' None)\<lparr> db_updated_at := ''T2'' \<rparr>],
      Inr (db_to_task ((example_row ''a'' None)\<lparr> db_updated_at := ''T2'' \<rparr>)))"
  by (simp add: update_eval)

lemma ex_update_title:
  "update_task (\<lambda>_. None)
     [(example_row ''a'' None)\<lparr> db_completed := True, db_completion_date := Some ''T0'' \<rparr>] ''a''
     (empty_update\<lparr> upd_title := Some (Some ''new'') \<rparr>) None None ''T1'' ''T2''
   = ([(example_row ''a'' None)\<lparr> db_title := ''new'', db_completed := True,
          db_completion_date := Some ''T0'', db_updated_at := ''T2'' \<rparr>],
      Inr (db_to_task ((example_row ''a'' None)\<lparr> db_title := ''new'', db_completed := True,
          db_completion_date := Some ''T0'', db_updated_at := ''T2'' \<rparr>)))"
  by (simp add: update_eval)

lemma ex_query_a: "query_first [example_row ''a'' None] ''a'' = Some (example_row ''a'' None)"
  by (simp add: query_first_def example_row_def)

lemma ex_query_done:
  "query_first [(example_row ''a'' None)\<lparr> db_completed := True, db_completion_date := Some ''T0'' \<rparr>] ''a''
     = Some ((example_row ''a'' None)\<lparr> db_completed := True, db_completion_date := Some ''T0'' \<rparr>)"
  by (simp add: query_first_def example_row_def)

lemmas accepted_eval =
  update_accepted_def check_if_unmodified_since_def check_if_match_def check_parent_def
  assigns_null_def fk_ok_def updated_row_def apply_updates_def handle_completion_date_def
  truthy_def example_row_def empty_update_def

lemma ex_accepted_complete:
  "update_accepted (\<lambda>_. None) [example_row ''a'' None] (example_row ''a'' None)
     (empty_update\<lparr> upd_completed := Some (Some True) \<rparr>) None None ''T1'' ''T2''"
  by (simp add: accepted_eval)

lemma ex_accepted_reopen:
  "update_accepted (\<lambda>_. None)
     [(example_row ''a'' None)\<lparr> db_completed := True, db_completion_date := Some ''T0'' \<rparr>]
     ((example_row ''a'' None)\<lparr> db_completed := True, db_completion_date := Some ''T0'' \<rparr>)
     (empty_update\<lparr> upd_completed := Some (Some False) \<rparr>) None None ''T1'' ''T2''"
  by (simp add: accepted_eval)

lemma ex_accepted_title:
  "update_accepted (\<lambda>_. None)
     [(example_row ''a'' None)\<lparr> db_completed := True, db_completion_date := Some ''T0'' \<rparr>]
     ((example_row ''a'' None)\<lparr> db_completed := True, db_completion_date := Some ''T0'' \<rparr>)
     (empty_update\<lparr> upd_title := Some (Some ''new'') \<rparr>) None None ''T1'' ''T2''"
  by (simp add: accepted_eval)

text \<open>
  Claim C5. An update of an existing task is applied when its checks pass (the two
  preconditions, the parent check, and the storage engine's checks at commit). The row
  that is then stored, which is the task returned, has \<open>completion_date\<close> equal to the
  timestamp read for it if the payload changes \<open>completed\<close> from false to true, null if the
  payload changes \<open>completed\<close> from true to false, and its former value if the payload
  leaves \<open>completed\<close> out. When a check fails the update raises and the table, hence the
  stored \<open>completion_date\<close>, is as before.
\<close>
theorem update_sets_completion_date:
  assumes "query_first db i = Some task"
  shows "(update_accepted f db task u ius im now_completion now_updated \<longrightarrow>
            update_task f db i u ius im now_completion now_updated =
              (map (\<lambda>x. if db_id x = i then updated_row task u now_completion now_updated else x) db,
               Inr (db_to_task (updated_row task u now_completion now_updated)))
          \<and> query_first (fst (update_task f db i u ius im now_completion now_updated)) i
              = Some (updated_row task u now_completion now_updated)
          \<and> (upd_completed u = Some (Some True) \<and> \<not> db_completed task \<longrightarrow>
               db_completion_date (updated_row task u now_completion now_updated)
                 = Some now_completion)
          \<and> (upd_completed u = Some (Some False) \<and> db_completed task \<longrightarrow>
               db_completion_date (updated_row task u now_completion now_updated) = None)
          \<and> (upd_completed u = None \<longrightarrow>
               db_completion_date (updated_row task u now_completion now_updated)
                 = db_completion_date task))
       \<and> (\<not> update_accepted f db task u ius im now_completion now_updated \<longrightarrow>
            fst (update_task f db i u ius im now_completion now_updated) = db
          \<and> (\<exists>e. snd (update_task f db i u ius im now_completion now_updated) = Inl e))"
proof (intro conjI impI)
  assume a: "update_accepted f db task u ius im now_completion now_updated"
  from assms have i: "db_id task = i" by (simp add: query_first_SomeD)
  have id: "db_id (updated_row task u now_completion now_updated) = i"
    by (simp add: updated_row_def i)
  show eq: "update_task f db i u ius im now_completion now_updated =
              (map (\<lambda>x. if db_id x = i then updated_row task u now_completion now_updated else x) db,
               Inr (db_to_task (updated_row task u now_completion now_updated)))"
    using update_task_accepted[OF assms a] .
  show "query_first (fst (update_task f db i u ius im now_completion now_updated)) i
              = Some (updated_row task u now_completion now_updated)"
    using query_first_map_replace[OF assms id] by (simp add: eq)
  from a have nn: "\<not> assigns_null u" by (simp add: update_accepted_def)
  note cd = completion_date_updated_row[OF nn, of task now_completion now_updated]
  show "db_completion_date (updated_row task u now_completion now_updated) = Some now_completion"
    if "upd_completed u = Some (Some True) \<and> \<not> db_completed task"
    using that cd by simp
  show "db_completion_date (updated_row task u now_completion now_updated) = None"
    if "upd_completed u = Some (Some False) \<and> db_completed task"
    using that cd by simp
  show "db_completion_date (updated_row task u now_completion now_updated)
          = db_completion_date task"
    if "upd_completed u = None"
    using that cd by simp
next
  assume "\<not> update_accepted f db task u ius im now_completion now_updated"
  from update_task_rejected[OF assms this]
  show "fst (update_task f db i u ius im now_completion now_updated) = db"
    and "\<exists>e. snd (update_task f db i u ius im now_completion now_updated) = Inl e"
    by simp_all
qed

theorem update_sets_completion_date_witness:
  "update_task (\<lambda>_. None) [example_row ''a'' None] ''a''
     (empty_update\<lparr> upd_completed := Some (Some True) \<rparr>) None None ''T1'' ''T2''
   = ([(example_row ''a'' None)\<lparr> db_completed := True, db_completion_date := Some ''T1'',
          db_updated_at := ''T2'' \<rparr>],
      Inr (db_to_task ((example_row ''a'' None)\<lparr> db_completed := True,
          db_completion_date := Some ''T1'', db_updated_at := ''T2'' \<rparr>)))
   \<and> update_task (\<lambda>_. None)
     [(example_row ''a'' None)\<lparr> db_completed := True, db_completion_date := Some ''T0'' \<rparr>] ''a''
     (empty_update\<lparr> upd_completed := Some (Some False) \<rparr>) None None ''T1'' ''T2''
   = ([(example_row ''a'' None)\<lparr> db_completion_date := None, db_updated_at := ''T2'' \<rparr>],
      Inr (db_to_task ((example_row ''a'' None)\<lparr> db_completion_date := None,
          db_updated_at := ''T2'' \<rparr>)))
   \<and> update_task (\<lambda>_. None)
     [(example_row ''a'' None)\<lparr> db_completed := True, db_completion_date := Some ''T0'' \<rparr>] ''a''
     (empty_update\<lparr> upd_title := Some (Some ''new'') \<rparr>) None None ''T1'' ''T2''
   = ([(example_row ''a'' None)\<lparr> db_title := ''new'', db_completed := True,
          db_completion_date := Some ''T0'', db_updated_at := ''T2'' \<rparr>],
      Inr (db_to_task ((example_row ''a'' None)\<lparr> db_title := ''new'', db_completed := True,
          db_completion_date := Some ''T0'', db_updated_at := ''T2'' \<rparr>)))"
proof (intro conjI)
  show "update_task (\<lambda>_. None) [example_row ''a'' None] ''a''
     (empty_update\<lparr> upd_completed := Some (Some True) \<rparr>) None None ''T1'' ''T2''
   = ([(example_row ''a'' None)\<lparr> db_completed := True, db_completion_date := Some ''T1'',
          db_updated_at := ''T2'' \<rparr>],
      Inr (db_to_task ((example_row ''a'' None)\<lparr> db_completed := True,
          db_completion_date := Some ''T1'', db_updated_at := ''T2'' \<rparr>)))"
    using update_sets_completion_date[OF ex_query_a, of "\<lambda>_. None"
        "empty_update\<lparr> upd_completed := Some (Some True) \<rparr>" None None "''T1''" "''T2''"]
      ex_accepted_complete
    by (simp add: updated_row_def apply_updates_def handle_completion_date_def
          empty_update_def example_row_def)
  show "update_task (\<lambda>_. None)
     [(example_row ''a'' None)\<lparr> db_completed := True, db_completion_date := Some ''T0'' \<rparr>] ''a''
     (empty_update\<lparr> upd_completed := Some (Some False) \<rparr>) None None ''T1'' ''T2''
   = ([(example_row ''a'' None)\<lparr> db_completion_date := None, db_updated_at := ''T2'' \<rparr>],
      Inr (db_to_task ((example_row ''a'' None)\<lparr> db_completion_date := None,
          db_updated_at := ''T2'' \<rparr>)))"
    using update_sets_completion_date[OF ex_query_done, of "\<lambda>_. None"
        "empty_update\<lparr> upd_completed := Some (Some False) \<rparr>" None None "''T1''" "''T2''"]
      ex_accepted_reopen
    by (simp add: updated_row_def apply_updates_def handle_completion_date_def
          empty_update_def example_row_def)
  show "update_task (\<lambda>_. None)
     [(example_row ''a'' None)\<lparr> db_completed := True, db_completion_date := Some ''T0'' \<rparr>] ''a''
     (empty_update\<lparr> upd_title := Some (Some ''new'') \<rparr>) None None ''T1'' ''T2''
   = ([(example_row ''a'' None)\<lparr> db_title := ''new'', db_completed := True,
          db_completion_date := Some ''T0'', db_updated_at := ''T2'' \<rparr>],
      Inr (db_to_task ((example_row ''a'' None)\<lparr> db_title := ''new'', db_completed := True,
          db_completion_date := Some ''T0'', db_updated_at := ''T2'' \<rparr>)))"
    using update_sets_completion_date[OF ex_query_done, of "\<lambda>_. None"
        "empty_update\<lparr> upd_title := Some (Some ''new'') \<rparr>" None None "''T1''" "''T2''"]
      ex_accepted_title
    by (simp add: updated_row_def apply_updates_def handle_completion_date_def
          empty_update_def example_row_def)
qed

text \<open>
  Claim C7, as amended. For an existing task, an \<open>If-Match\<close> header equal to the quoted
  stored \<open>updated_at\<close> passes the check: the request has the result of the same request
  without the header. Any other non-empty \<open>If-Match\<close> value makes the update fail and
  leaves the table as it was; the failure is \<open>PreconditionFailed\<close> (412) unless the check
  of \<open>If-Unmodified-Since\<close>, which comes first, has raised already.
\<close>
theorem update_if_match:
  assumes "query_first db i = Some task"
  shows "update_task f db i u ius (Some (calculate_etag task)) n1 n2
           = update_task f db i u ius None n1 n2
     \<and> (m \<noteq> [] \<and> m \<noteq> calculate_etag task \<longrightarrow>
          fst (update_task f db i u ius (Some m) n1 n2) = db
          \<and> (\<exists>e. snd (update_task f db i u ius (Some m) n1 n2) = Inl e)
          \<and> (check_if_unmodified_since f task ius = None \<longrightarrow>
               snd (update_task f db i u ius (Some m) n1 n2) = Inl HTTP_412_PRECONDITION_FAILED))"
  using assms
  by (auto simp: update_task_def check_if_match_def truthy_def calculate_etag_def
           split: option.splits)

lemma ex_update_etag_ok:
  "update_task (\<lambda>_. None) [example_row ''a'' None] ''a''
     (empty_update\<lparr> upd_title := Some (Some ''new'') \<rparr>) None None ''T1'' ''T2''
   = ([(example_row ''a'' None)\<lparr> db_title := ''new'', db_updated_at := ''T2'' \<rparr>],
      Inr (db_to_task ((example_row ''a'' None)\<lparr> db_title := ''new'', db_updated_at := ''T2'' \<rparr>)))"
  by (simp add: update_eval)

theorem update_if_match_witness:
  "update_task (\<lambda>_. None) [example_row ''a'' None] ''a''
      (empty_update\<lparr> upd_title := Some (Some ''new'') \<rparr>) None
      (Some (calculate_etag (example_row ''a'' None))) ''T1'' ''T2''
    = ([(example_row ''a'' None)\<lparr> db_title := ''new'', db_updated_at := ''T2'' \<rparr>],
       Inr (db_to_task ((example_row ''a'' None)\<lparr> db_title := ''new'', db_updated_at := ''T2'' \<rparr>)))
   \<and> update_task (\<lambda>_. None) [example_row ''a'' None] ''a''
      (empty_update\<lparr> upd_title := Some (Some ''new'') \<rparr>) None
      (Some [CHR 0x22, CHR ''w'', CHR 0x22]) ''T1'' ''T2''
    = ([example_row ''a'' None], Inl HTTP_412_PRECONDITION_FAILED)"
  using update_if_match[OF ex_query_a, of "\<lambda>_. None"
      "empty_update\<lparr> upd_title := Some (Some ''new'') \<rparr>" None "''T1''" "''T2''"
      "[CHR 0x22, CHR ''w'', CHR 0x22]"]
    ex_update_etag_ok
  by (auto simp: calculate_etag_def example_row_def check_if_unmodified_since_def truthy_def
        prod_eq_iff)

text \<open>
  The claim as stated fails for the empty header value: it differs from the quoted
  \<open>updated_at\<close>, but \<open>if if_match:\<close> skips the check and the update goes through.
\<close>

theorem update_if_match_empty_counterexample:
  "Some [] \<noteq> Some (calculate_etag (example_row ''a'' None))
   \<and> update_task (\<lambda>_. None) [example_row ''a'' None] ''a''
      (empty_update\<lparr> upd_title := Some (Some ''new'') \<rparr>) None (Some []) ''T1'' ''T2''
    = ([(example_row ''a'' None)\<lparr> db_title := ''new'', db_updated_at := ''T2'' \<rparr>],
       Inr (db_to_task ((example_row ''a'' None)\<lparr> db_title := ''new'', db_updated_at := ''T2'' \<rparr>)))"
  by (simp add: update_eval)

section \<open>Properties of import_tasks\<close>

lemma db_insert_ids: "db_insert db r = Some db' \<Longrightarrow> db' = db @ [r]"
  by (auto simp: db_insert_def split: if_splits)

lemma db_update_ids: "db_update db r = Some db' \<Longrightarrow> map db_id db' = map db_id db"
  by (auto simp: db_update_def split: if_splits)

lemma import_loop_count:
  "import_loop oc ex ts (db, n) = Some (db', n') \<Longrightarrow> set ex \<subseteq> set (map db_id db) \<Longrightarrow>
     n' = n + length ts \<and> set ex \<subseteq> set (map db_id db')"
proof (induction ts arbitrary: db n)
  case Nil
  then show ?case by simp
next
  case (Cons t ts)
  show ?case
  proof (cases "oc = ''upsert'' \<and> task_id t \<in> set ex")
    case True
    with Cons.prems(2) have "task_id t \<in> set (map db_id db)" by auto
    then obtain row where row: "query_first db (task_id t) = Some row"
      by (cases "query_first db (task_id t)") (auto simp: query_first_None_iff)
    with True Cons.prems(1) obtain db1 where
      1: "db_update db (upsert_row row t) = Some db1"
      and 2: "import_loop oc ex ts (db1, n + 1) = Some (db', n')"
      by (auto split: option.splits)
    from db_update_ids[OF 1] Cons.prems(2) have "set ex \<subseteq> set (map db_id db1)" by simp
    from Cons.IH[OF 2 this] show ?thesis by simp
  next
    case False
    with Cons.prems(1) obtain db1 where
      1: "db_insert db (import_row t) = Some db1"
      and 2: "import_loop oc ex ts (db1, n + 1) = Some (db', n')"
      by (auto split: option.splits)
    from db_insert_ids[OF 1] Cons.prems(2) have "set ex \<subseteq> set (map db_id db1)" by auto
    from Cons.IH[OF 2 this] show ?thesis by simp
  qed
qed

lemma import_tasks_unfold:
  "import_tasks db tasks validate_only on_conflict lim =
     (if \<not> distinct (map task_id tasks) then (db, Inl HTTP_422_UNPROCESSABLE_ENTITY)
      else if existing_ids_of db tasks \<noteq> [] \<and> on_conflict = ''fail''
        then (db, Inl (HTTP_409_CONFLICT (existing_ids_of db tasks)))
      else if validate_only then (db, Inr (200, length (kept_tasks db tasks on_conflict)))
      else (case sort_tasks lim (kept_tasks db tasks on_conflict) of
              None \<Rightarrow> (db, Inl RecursionError)
            | Some sorted_tasks \<Rightarrow>
                (case import_loop on_conflict (existing_ids_of db tasks) sorted_tasks (db, 0) of
                   None \<Rightarrow> (db, Inl IntegrityError)
                 | Some (db', imported_count) \<Rightarrow> (db', Inr (201, imported_count)))))"
  unfolding import_tasks_def existing_ids_of_def kept_tasks_def Let_def duplicate_ids_iff
  by (simp split: option.splits)

lemma kept_tasks_distinct:
  "distinct (map task_id tasks) \<Longrightarrow> distinct (map task_id (kept_tasks db tasks oc))"
  by (simp add: kept_tasks_def distinct_map_filter)

lemma existing_ids_subset: "set (existing_ids_of db tasks) \<subseteq> set (map db_id db)"
  by (auto simp: existing_ids_of_def)

lemma upsert_row_eq_import_row:
  "db_id row = task_id t \<Longrightarrow> upsert_row row t = import_row t"
  by (simp add: upsert_row_def import_row_def)

lemma set_map_replace:
  "i \<in> db_id ` set db \<Longrightarrow>
   set (map (\<lambda>x. if db_id x = i then r else x) db) = {x \<in> set db. db_id x \<noteq> i} \<union> {r}"
  by (induction db) auto

lemma import_loop_rows:
  "import_loop oc ex s (db, n) = Some (db', n') \<Longrightarrow> set ex \<subseteq> set (map db_id db) \<Longrightarrow>
   distinct (map task_id s) \<Longrightarrow>
   set db' = {r \<in> set db. db_id r \<notin> task_id ` set s} \<union> import_row ` set s"
proof (induction s arbitrary: db n)
  case Nil
  then show ?case by simp
next
  case (Cons t s)
  from Cons.prems(3) have ds: "distinct (map task_id s)" and nt: "task_id t \<notin> task_id ` set s"
    by simp_all
  from nt have nt': "task_id x \<noteq> task_id t" if "x \<in> set s" for x
    using that by (metis imageI)
  have idr: "db_id (import_row t) = task_id t" by (simp add: import_row_def)
  show ?case
  proof (cases "oc = ''upsert'' \<and> task_id t \<in> set ex")
    case True
    with Cons.prems(2) have tin: "task_id t \<in> db_id ` set db" by auto
    then obtain row where row: "query_first db (task_id t) = Some row"
      by (cases "query_first db (task_id t)") (auto simp: query_first_None_iff)
    then have rid: "db_id row = task_id t" by (simp add: query_first_SomeD)
    from row True Cons.prems(1) obtain db1 where
      1: "db_update db (upsert_row row t) = Some db1"
      and 2: "import_loop oc ex s (db1, n + 1) = Some (db', n')"
      by (auto split: option.splits)
    from 1 have db1: "db1 = map (\<lambda>x. if db_id x = task_id t then import_row t else x) db"
      by (auto simp: db_update_def upsert_row_eq_import_row[OF rid] idr split: if_splits)
    from set_map_replace[OF tin] db1
    have s1: "set db1 = {x \<in> set db. db_id x \<noteq> task_id t} \<union> {import_row t}" by simp
    from db_update_ids[OF 1] Cons.prems(2) have "set ex \<subseteq> set (map db_id db1)" by simp
    from Cons.IH[OF 2 this ds]
    have "set db' = {r \<in> set db1. db_id r \<notin> task_id ` set s} \<union> import_row ` set s" .
    with s1 nt nt' idr show ?thesis by auto
  next
    case False
    with Cons.prems(1) obtain db1 where
      1: "db_insert db (import_row t) = Some db1"
      and 2: "import_loop oc ex s (db1, n + 1) = Some (db', n')"
      by (auto split: option.splits)
    from 1 have db1: "db1 = db @ [import_row t]" and new: "task_id t \<notin> db_id ` set db"
      by (auto simp: db_insert_def idr split: if_splits)
    from new have new': "db_id x \<noteq> task_id t" if "x \<in> set db" for x
      using that by (metis imageI)
    from db1 Cons.prems(2) have "set ex \<subseteq> set (map db_id db1)" by auto
    from Cons.IH[OF 2 this ds]
    have "set db' = {r \<in> set db1. db_id r \<notin> task_id ` set s} \<union> import_row ` set s" .
    with db1 nt nt' idr new new' show ?thesis by auto
  qed
qed

lemmas import_eval =
  import_tasks_unfold existing_ids_of_def kept_tasks_def sort_tasks_def tasks_by_id_def
  in_batch_parent_def db_insert_def db_update_def fk_ok_def query_first_def import_row_def
  upsert_row_def set_tags_def set_metadata_def tags_or_empty_def example_task_def
  example_row_def

lemma ex_import_skip:
  "import_tasks [example_row ''a'' None] [example_task ''a'' None, example_task ''b'' (Some ''a'')]
     False ''skip'' 2 =
   ([example_row ''a'' None, example_row ''b'' (Some ''a'')], Inr (201, 1))"
  by (simp add: import_eval numeral_2_eq_2)

lemma ex_kept_skip:
  "kept_tasks [example_row ''a'' None]
     [example_task ''a'' None, example_task ''b'' (Some ''a'')] ''skip''
   = [example_task ''b'' (Some ''a'')]"
  by (simp add: kept_tasks_def existing_ids_of_def example_task_def example_row_def)

text \<open>
  Claim C6, as amended. With \<open>validate_only\<close> the table is returned as it was, for every
  batch, every \<open>on_conflict\<close> and every recursion limit, and unless the batch is refused
  (duplicate ids, or a conflict under \<open>fail\<close>) the \<open>imported_count\<close> returned is the number
  of records left by the conflict policy. Whenever the run without \<open>validate_only\<close>
  succeeds, it reports that same count and has written exactly those records: the table
  then holds the row of each of them, and besides these the rows it had under other ids.
\<close>
theorem import_validate_only_count:
  "import_tasks db tasks True on_conflict lim =
     (db, if \<not> distinct (map task_id tasks) then Inl HTTP_422_UNPROCESSABLE_ENTITY
          else if existing_ids_of db tasks \<noteq> [] \<and> on_conflict = ''fail''
            then Inl (HTTP_409_CONFLICT (existing_ids_of db tasks))
          else Inr (200, length (kept_tasks db tasks on_conflict)))
   \<and> (\<forall>db' status n. import_tasks db tasks False on_conflict lim = (db', Inr (status, n))
        \<longrightarrow> import_tasks db tasks True on_conflict lim
              = (db, Inr (200, length (kept_tasks db tasks on_conflict)))
            \<and> n = length (kept_tasks db tasks on_conflict)
            \<and> set db' = {r \<in> set db. db_id r \<notin> task_id ` set (kept_tasks db tasks on_conflict)}
                          \<union> import_row ` set (kept_tasks db tasks on_conflict))"
proof (intro conjI allI impI)
  show "import_tasks db tasks True on_conflict lim =
     (db, if \<not> distinct (map task_id tasks) then Inl HTTP_422_UNPROCESSABLE_ENTITY
          else if existing_ids_of db tasks \<noteq> [] \<and> on_conflict = ''fail''
            then Inl (HTTP_409_CONFLICT (existing_ids_of db tasks))
          else Inr (200, length (kept_tasks db tasks on_conflict)))"
    by (simp add: import_tasks_unfold)
next
  fix db' status n
  assume r: "import_tasks db tasks False on_conflict lim = (db', Inr (status, n))"
  from r have d: "distinct (map task_id tasks)"
    and nf: "\<not> (existing_ids_of db tasks \<noteq> [] \<and> on_conflict = ''fail'')"
    by (auto simp: import_tasks_unfold split: if_splits)
  from r d nf obtain s where s: "sort_tasks lim (kept_tasks db tasks on_conflict) = Some s"
    and l: "import_loop on_conflict (existing_ids_of db tasks) s (db, 0) = Some (db', n)"
    by (auto simp: import_tasks_unfold split: option.splits)
  note dk = kept_tasks_distinct[OF d, of db on_conflict]
  from sort_tasks_sound[OF dk s] have m: "mset s = mset (kept_tasks db tasks on_conflict)"
    by simp
  then have len: "length s = length (kept_tasks db tasks on_conflict)"
    and set: "set s = set (kept_tasks db tasks on_conflict)"
    by (metis size_mset, metis set_mset_mset)
  from m dk have dist: "distinct (map task_id s)"
    by (metis distinct_map mset_eq_imp_distinct_iff set inj_on_cong)
  from d nf show "import_tasks db tasks True on_conflict lim
              = (db, Inr (200, length (kept_tasks db tasks on_conflict)))"
    by (simp add: import_tasks_unfold)
  from import_loop_count[OF l existing_ids_subset] len
  show "n = length (kept_tasks db tasks on_conflict)" by simp
  from import_loop_rows[OF l existing_ids_subset dist] set
  show "set db' = {r \<in> set db. db_id r \<notin> task_id ` set (kept_tasks db tasks on_conflict)}
                          \<union> import_row ` set (kept_tasks db tasks on_conflict)" by simp
qed

theorem import_validate_only_count_witness:
  "import_tasks [example_row ''a'' None]
      [example_task ''a'' None, example_task ''b'' (Some ''a'')] True ''skip'' 2
     = ([example_row ''a'' None], Inr (200, 1))
   \<and> import_tasks [example_row ''a'' None]
      [example_task ''a'' None, example_task ''b'' (Some ''a'')] False ''skip'' 2
     = ([example_row ''a'' None, example_row ''b'' (Some ''a'')], Inr (201, 1))
   \<and> set [example_row ''a'' None, example_row ''b'' (Some ''a'')]
     = {r \<in> set [example_row ''a'' None]. db_id r \<notin> task_id ` set [example_task ''b'' (Some ''a'')]}
         \<union> import_row ` set [example_task ''b'' (Some ''a'')]"
  using import_validate_only_count[of "[example_row ''a'' None]"
      "[example_task ''a'' None, example_task ''b'' (Some ''a'')]" "''skip''" 2]
    ex_import_skip ex_kept_skip
  by (simp add: example_task_def example_row_def import_row_def set_tags_def set_metadata_def
        tags_or_empty_def)

lemma cyclic_batch_no_order:
  "sort_tasks n [example_task ''A'' (Some ''B''), example_task ''B'' (Some ''A'')] = None"
  using sort_tasks_acyclic[OF ex2_distinct] ex2_cyclic
  by (cases "sort_tasks n [example_task ''A'' (Some ''B''), example_task ''B'' (Some ''A'')]") auto

text \<open>
  The claim as stated fails: \<open>validate_only\<close> returns before the parents are looked at, so
  it reports one record for a batch whose only record names a parent that exists nowhere,
  and the run without it writes nothing (the foreign key refuses the row).
\<close>

lemma ex_dangling_sort:
  "sort_tasks (Suc n) [example_task ''a'' (Some ''missing'')]
     = Some [example_task ''a'' (Some ''missing'')]"
  by (simp add: sort_tasks_def tasks_by_id_def in_batch_parent_def example_task_def)

theorem import_validate_only_counterexample:
  "import_tasks [] [example_task ''a'' (Some ''missing'')] True ''fail'' 1000 = ([], Inr (200, 1))
   \<and> import_tasks [] [example_task ''a'' (Some ''missing'')] False ''fail'' 1000
       = ([], Inl IntegrityError)"
proof -
  have "sort_tasks 1000 [example_task ''a'' (Some ''missing'')]
     = Some [example_task ''a'' (Some ''missing'')]"
    using ex_dangling_sort[of 999, simplified] .
  then show ?thesis
    by (simp add: import_tasks_unfold existing_ids_of_def kept_tasks_def db_insert_def fk_ok_def
          import_row_def example_task_def)
qed

section \<open>No task is its own parent\<close>

lemma inserted_before_self: "distinct r \<Longrightarrow> \<not> inserted_before a a r"
  by (induction r) auto

lemma sorted_no_self_parent:
  assumes d: "distinct (map task_id ts)" and r: "sort_tasks n ts = Some r" and t: "t \<in> set r"
  shows "\<not> (truthy (parent_id t) \<and> parent_id t = Some (task_id t))"
proof
  assume a: "truthy (parent_id t) \<and> parent_id t = Some (task_id t)"
  from sort_tasks_sound[OF d r] have m: "mset r = mset ts"
    and pf: "parents_first (tasks_by_id ts) [] r" by auto
  from m t have tt: "t \<in> set ts" by (metis set_mset_mset)
  from m d have dr: "distinct r" by (metis distinct_map mset_eq_imp_distinct_iff)
  from a tt d have "in_batch_parent (tasks_by_id ts) t = Some t"
    by (auto simp: in_batch_parent_def truthy_def tasks_by_id_distinct)
  from parents_first_inserted_before[OF pf this t] have "inserted_before t t r" by simp
  with inserted_before_self[OF dr] show False by simp
qed

lemma no_self_parent_append:
  "no_self_parent (db @ [r]) = (no_self_parent db \<and> \<not> self_parent r)"
  by (simp add: no_self_parent_def)

lemma no_self_parent_replace:
  "no_self_parent db \<Longrightarrow> \<not> self_parent r \<Longrightarrow>
     no_self_parent (map (\<lambda>x. if db_id x = i then r else x) db)"
  by (induction db) (auto simp: no_self_parent_def)

lemma self_parent_import_row:
  "self_parent (import_row t) = (truthy (parent_id t) \<and> parent_id t = Some (task_id t))"
  by (simp add: self_parent_def import_row_def)

lemma self_parent_upsert_row:
  "db_id row = task_id t \<Longrightarrow>
   self_parent (upsert_row row t) = (truthy (parent_id t) \<and> parent_id t = Some (task_id t))"
  by (simp add: self_parent_def upsert_row_def)

lemma import_loop_no_self_parent:
  "import_loop oc ex ts (db, n) = Some (db', n') \<Longrightarrow> no_self_parent db \<Longrightarrow>
   \<forall>t\<in>set ts. \<not> (truthy (parent_id t) \<and> parent_id t = Some (task_id t)) \<Longrightarrow>
   no_self_parent db'"
proof (induction ts arbitrary: db n)
  case Nil
  then show ?case by simp
next
  case (Cons t ts)
  from Cons.prems(3) have t: "\<not> (truthy (parent_id t) \<and> parent_id t = Some (task_id t))"
    and rest: "\<forall>t\<in>set ts. \<not> (truthy (parent_id t) \<and> parent_id t = Some (task_id t))"
    by simp_all
  show ?case
  proof (cases "oc = ''upsert'' \<and> task_id t \<in> set ex")
    case True
    show ?thesis
    proof (cases "query_first db (task_id t)")
      case None
      with True Cons.prems(1) have "import_loop oc ex ts (db, n) = Some (db', n')" by simp
      from Cons.IH[OF this Cons.prems(2) rest] show ?thesis .
    next
      case (Some row)
      with True Cons.prems(1) obtain db1 where
        1: "db_update db (upsert_row row t) = Some db1"
        and 2: "import_loop oc ex ts (db1, n + 1) = Some (db', n')"
        by (auto split: option.splits)
      from Some have "db_id row = task_id t" by (simp add: query_first_SomeD)
      with t have "\<not> self_parent (upsert_row row t)" by (simp add: self_parent_upsert_row)
      with 1 Cons.prems(2) have "no_self_parent db1"
        by (auto simp: db_update_def no_self_parent_replace split: if_splits)
      from Cons.IH[OF 2 this rest] show ?thesis .
    qed
  next
    case False
    with Cons.prems(1) obtain db1 where
      1: "db_insert db (import_row t) = Some db1"
      and 2: "import_loop oc ex ts (db1, n + 1) = Some (db', n')"
      by (auto split: option.splits)
    from db_insert_ids[OF 1] t Cons.prems(2) have "no_self_parent db1"
      by (simp add: no_self_parent_append self_parent_import_row)
    from Cons.IH[OF 2 this rest] show ?thesis .
  qed
qed

lemma import_tasks_no_self_parent:
  assumes "no_self_parent db"
  shows "no_self_parent (fst (import_tasks db tasks validate_only oc lim))"
proof (cases "import_tasks db tasks validate_only oc lim = (db, snd (import_tasks db tasks validate_only oc lim))")
  case True
  then have "fst (import_tasks db tasks validate_only oc lim) = db" by (metis fst_conv)
  with assms show ?thesis by simp
next
  case False
  then have d: "distinct (map task_id tasks)"
    by (auto simp: import_tasks_unfold split: if_splits)
  with False obtain s db' n where
    s: "sort_tasks lim (kept_tasks db tasks oc) = Some s"
    and l: "import_loop oc (existing_ids_of db tasks) s (db, 0) = Some (db', n)"
    and r: "fst (import_tasks db tasks validate_only oc lim) = db'"
    by (auto simp: import_tasks_unfold split: if_splits option.splits)
  have "\<forall>t\<in>set s. \<not> (truthy (parent_id t) \<and> parent_id t = Some (task_id t))"
    using sorted_no_self_parent[OF kept_tasks_distinct[OF d] s] by blast
  from import_loop_no_self_parent[OF l assms this] r show ?thesis by simp
qed

lemma create_task_no_self_parent:
  assumes "no_self_parent db"
  shows "no_self_parent (fst (create_task db task_input new_id now))"
proof (cases "fst (create_task db task_input new_id now) = db")
  case True
  with assms show ?thesis by simp
next
  case False
  then obtain row where ins: "db_insert db row = Some (fst (create_task db task_input new_id now))"
    and i: "db_id row = new_id" and p: "db_parent_id row = in_parent_id task_input"
    and q: "\<not> (truthy (db_parent_id row) \<and> query_first db (the (db_parent_id row)) = None)"
    by (auto simp: create_task_def Let_def split: if_splits option.splits)
  from ins have new: "new_id \<notin> set (map db_id db)" and eq: "fst (create_task db task_input new_id now) = db @ [row]"
    using i by (auto simp: db_insert_def split: if_splits)
  have "\<not> self_parent row"
  proof
    assume sp: "self_parent row"
    then have "truthy (db_parent_id row)" "the (db_parent_id row) = new_id"
      by (auto simp: self_parent_def i)
    with q have "query_first db new_id \<noteq> None" by auto
    with new show False by (simp add: query_first_None_iff)
  qed
  with assms eq show ?thesis by (simp add: no_self_parent_append)
qed

lemma update_task_no_self_parent:
  assumes "no_self_parent db"
  shows "no_self_parent (fst (update_task f db i u ius im n1 n2))"
proof (cases "fst (update_task f db i u ius im n1 n2) = db")
  case True
  with assms show ?thesis by simp
next
  case False
  then obtain task t' db' where q: "query_first db i = Some task"
    and r: "update_task f db i u ius im n1 n2 = (db', Inr t')"
    by (auto simp: update_task_def Let_def split: option.splits if_splits)
  from update_task_success[OF q r]
  have db': "db' = map (\<lambda>x. if db_id x = i then updated_row task u n1 n2 else x) db"
    and cp: "check_parent db task u = None" by blast+
  from q have task: "task \<in> set db" by (simp add: query_first_SomeD)
  with assms have nsp: "\<not> self_parent task" by (simp add: no_self_parent_def list_all_iff)
  have "\<not> self_parent (updated_row task u n1 n2)"
  proof (cases "upd_parent_id u")
    case None
    with nsp show ?thesis
      by (simp add: self_parent_def updated_row_def apply_updates_def handle_completion_date_def)
  next
    case (Some v)
    with cp show ?thesis
      by (auto simp: self_parent_def updated_row_def apply_updates_def
            handle_completion_date_def check_parent_def split: if_splits)
  qed
  from no_self_parent_replace[OF assms this] db' r show ?thesis by simp
qed

text \<open>
  Claim C1, as amended. If no stored task with a non-empty \<open>parent_id\<close> is its own parent,
  the same holds of the table after \<open>create_task\<close>, after \<open>update_task\<close> and after
  \<open>import_tasks\<close>, whatever their arguments and whether they succeed or fail. In
  particular every record that import writes with a non-empty \<open>parent_id\<close> has a
  \<open>parent_id\<close> different from its id.
\<close>
theorem mutations_keep_no_self_parent:
  assumes "no_self_parent db"
  shows "no_self_parent (fst (create_task db task_input new_id now))
       \<and> no_self_parent (fst (update_task f db i u ius im n1 n2))
       \<and> no_self_parent (fst (import_tasks db tasks validate_only on_conflict lim))"
  using create_task_no_self_parent[OF assms] update_task_no_self_parent[OF assms]
    import_tasks_no_self_parent[OF assms]
  by blast

lemma ex_store_no_self_parent: "no_self_parent [example_row ''a'' None]"
  by (simp add: no_self_parent_def self_parent_def example_row_def truthy_def)

theorem mutations_keep_no_self_parent_witness:
  "no_self_parent [example_row ''a'' None]
   \<and> no_self_parent (fst (create_task [example_row ''a'' None]
        \<lparr> in_title = ''c'', in_description = None, in_completed = None, in_archived = None,
          in_priority = None, in_due_date = None, in_tags = None, in_metadata = None,
          in_parent_id = Some ''a'' \<rparr> ''b'' ''T1''))
   \<and> no_self_parent (fst (update_task (\<lambda>_. None) [example_row ''a'' None] ''a''
        (empty_update\<lparr> upd_parent_id := Some (Some ''a'') \<rparr>) None None ''T1'' ''T2''))
   \<and> no_self_parent (fst (import_tasks [example_row ''a'' None]
        [example_task ''b'' (Some ''a'')] False ''fail'' 1000))"
  using mutations_keep_no_self_parent[OF ex_store_no_self_parent] ex_store_no_self_parent
  by blast

text \<open>
  The claim as stated fails for the empty id: \<open>task.parent_id\<close> is then false as a
  Python value, the record is written, and the row refers to itself.
\<close>

lemma ex_empty_id_sort:
  "sort_tasks (Suc n) [example_task [] (Some [])] = Some [example_task [] (Some [])]"
  by (simp add: sort_tasks_def tasks_by_id_def in_batch_parent_def example_task_def)

theorem import_empty_id_self_parent_counterexample:
  "import_tasks [] [example_task [] (Some [])] False ''fail'' 1000
     = ([example_row [] (Some [])], Inr (201, 1))
   \<and> db_parent_id (example_row [] (Some [])) = Some (db_id (example_row [] (Some [])))"
proof -
  have "sort_tasks 1000 [example_task [] (Some [])] = Some [example_task [] (Some [])]"
    using ex_empty_id_sort[of 999, simplified] .
  then show ?thesis
    by (simp add: import_tasks_unfold existing_ids_of_def kept_tasks_def db_insert_def fk_ok_def
          import_row_def example_task_def example_row_def set_tags_def set_metadata_def
          tags_or_empty_def)
qed

text \<open>A record that names its own non-empty id as parent is not refused by import: the
  reordering exceeds every recursion limit on it.\<close>

lemma self_parent_never_sorted:
  "sort_tasks n [example_task ''a'' (Some ''a'')] = None"
proof (cases "sort_tasks n [example_task ''a'' (Some ''a'')]")
  case None
  then show ?thesis .
next
  case (Some r)
  have d: "distinct (map task_id [example_task ''a'' (Some ''a'')])" by simp
  from sort_tasks_sound[OF d Some] have "example_task ''a'' (Some ''a'') \<in> set r"
    by (metis list.set_intros(1) set_mset_mset)
  from sorted_no_self_parent[OF d Some this] show ?thesis
    by (simp add: example_task_def truthy_def)
qed

section \<open>Properties of list_tasks\<close>

lemma filter_commute: "filter P (filter Q xs) = filter Q (filter P xs)"
  by (simp add: conj_commute)

lemma filter_completed_commute:
  "filter_completed c (filter P xs) = filter P (filter_completed c xs)"
  by (simp add: filter_completed_def conj_commute split: option.splits)
















text \<open>
  Claim C2. The filter searches the JSON text of the column with LIKE. On the spec's own
  example it answers as claimed: of the tasks tagged \<open>["Work","Urgent","extra"]\<close> and
  \<open>["work"]\<close>, the filter tags \<open>work\<close> and \<open>urgent\<close> return the first only. But the tag is put
  into the pattern as it is, so \<open>_\<close> and \<open>%\<close> in it are wildcards: the task tagged only
  \<open>work\<close> is returned for the filter tag \<open>w_rk\<close> and for the filter tag \<open>%\<close>, neither of which
  is among its tags.
\<close>
theorem list_tag_filter_wildcard:
  "tl_data (list_tasks [tagged_row ''a'' [''Work'', ''Urgent'', ''extra''], tagged_row ''b'' [''work'']]
              (tag_query [''work'', ''urgent'']) ''2025-06-01T00:00:00Z'')
     = [db_to_task (tagged_row ''a'' [''Work'', ''Urgent'', ''extra''])]
   \<and> get_tags (tagged_row ''b'' [''work'']) = [''work'']
   \<and> lower (strip ''w_rk'') \<notin> set (map lower (get_tags (tagged_row ''b'' [''work''])))
   \<and> tl_data (list_tasks [tagged_row ''b'' [''work'']] (tag_query [''w_rk''])
              ''2025-06-01T00:00:00Z'')
     = [db_to_task (tagged_row ''b'' [''work''])]
   \<and> lower (strip ''%'') \<notin> set (map lower (get_tags (tagged_row ''b'' [''work''])))
   \<and> tl_data (list_tasks [tagged_row ''b'' [''work'']] (tag_query [''%''])
              ''2025-06-01T00:00:00Z'')
     = [db_to_task (tagged_row ''b'' [''work''])]"
  by code_simp

section \<open>Export and re-import\<close>

text \<open>The setters write the normal forms that \<open>store_ok\<close> asks for.\<close>

lemma dropWhile_idem: "dropWhile P (dropWhile P xs) = dropWhile P xs"
  by (induction xs) auto

lemma rstrip_cases:
  "rev (dropWhile P (rev xs)) = []
   \<or> (xs \<noteq> [] \<and> hd (rev (dropWhile P (rev xs))) = hd xs)"
  by (cases xs) (auto simp: dropWhile_append)

lemma strip_idem: "strip (strip s) = strip s"
proof -
  define a where "a = dropWhile is_space s"
  define b where "b = rev (dropWhile is_space (rev a))"
  have ha: "a = [] \<or> \<not> is_space (hd a)" unfolding a_def by (metis hd_dropWhile)
  have "b = [] \<or> (a \<noteq> [] \<and> hd b = hd a)"
    using rstrip_cases[of is_space a] unfolding b_def .
  with ha have "b = [] \<or> \<not> is_space (hd b)" by auto
  then have fixed: "dropWhile is_space b = b" by (cases b) auto
  have sb: "strip s = b" by (simp add: strip_def a_def b_def)
  have "rev (dropWhile is_space (rev b)) = b"
    by (simp add: b_def dropWhile_idem)
  then have "strip b = b" by (simp add: strip_def fixed)
  with sb show ?thesis by simp
qed

lemma set_tags_normal: "tags_normal (r\<lparr> db_tags := set_tags ts \<rparr>)"
  by (simp add: tags_normal_def set_tags_def strip_idem)

lemma set_metadata_normal: "set_metadata m \<noteq> Some []"
  by (simp add: set_metadata_def split: option.splits)



lemma task_id_db_to_task [simp]: "task_id (db_to_task r) = db_id r"
  by (simp add: db_to_task_def)














end
